theory Spec2Isabelle
  imports Main "HOL-Library.AList"
begin

section \<open>Data model of the signalling server\<close>

text \<open>
  A JavaScript \<^verbatim>\<open>Map<string, V>\<close> is an association list in insertion order:
  \<^verbatim>\<open>get\<close> is \<^const>\<open>map_of\<close>, \<^verbatim>\<open>set\<close> is \<^const>\<open>AList.update\<close> (an existing key keeps
  its position, a new key goes to the end), \<^verbatim>\<open>delete\<close> is \<^const>\<open>AList.delete\<close>,
  \<^verbatim>\<open>size\<close> is \<^const>\<open>length\<close> and iteration runs from the head.
\<close>

type_synonym 'v jsmap = "(string \<times> 'v) list"

text \<open>A thrown \<^verbatim>\<open>new Error(message)\<close>.\<close>

datatype error = Error string

text \<open>
  The media-engine objects are opaque handles. Of a transport the code reads its
  \<^verbatim>\<open>id\<close> and \<^verbatim>\<open>appData?.direction\<close>, of a producer its \<^verbatim>\<open>id\<close>, of a consumer its
  \<^verbatim>\<open>id\<close>, \<^verbatim>\<open>kind\<close> and \<^verbatim>\<open>rtpParameters\<close>.
\<close>

type_synonym Router = string

record Transport =
  transport_id :: string
  appData_direction :: "string option"

record Producer =
  producer_id :: string
  producer_kind :: string

record Consumer =
  consumer_id :: string
  consumer_producerId :: string
  consumer_kind :: string
  consumer_rtpParameters :: string
  consumer_paused :: bool

record PeerInfo =
  peer_id :: string
  peer_name :: string
  transports :: "Transport jsmap"
  producers :: "Producer jsmap"
  consumers :: "Consumer jsmap"

record Recording =
  isRecording :: bool
  recordingId :: "string option"
  startTime :: "nat option"
  filePath :: "string option"

record RoomInfo =
  room_id :: string
  room_name :: string
  peers :: "PeerInfo jsmap"
  router :: Router
  recording :: Recording

datatype RecordingStatus = st_recording | st_stopped | st_processing | st_completed | st_failed

record RecordingInfo =
  rec_id :: string
  rec_roomId :: string
  rec_filePath :: string
  rec_startTime :: nat
  rec_endTime :: "nat option"
  rec_status :: RecordingStatus
  rec_participants :: "string list"

text \<open>One client connection: \<^verbatim>\<open>socket.data.peerId\<close>, \<^verbatim>\<open>socket.data.roomId\<close> and the
  socket.io rooms the socket has joined.\<close>

record Socket =
  data_peerId :: string
  data_roomId :: "string option"
  socket_rooms :: "string list"

datatype message =
    joined string string "Router option" bool
  | peerJoined string string
  | existingPeers "(string \<times> string) list"
  | peerLeft string
  | transportCreated string
  | produced string
  | newProducer string string string
  | consumed string string string string
  | recordingStarted string nat
  | recordingStopped string "nat option" string
  | error_msg string

text \<open>\<^verbatim>\<open>socket.emit\<close>, \<^verbatim>\<open>socket.to(room).emit\<close> and \<^verbatim>\<open>server.to(room).emit\<close>; a socket
  is named by its \<^verbatim>\<open>data.peerId\<close>.\<close>

datatype target = socket_emit string | socket_to string string | server_to string

text \<open>What a call does outside the service's own maps, in the order it does it.\<close>

datatype effect =
    transport_close string
  | producer_close string
  | consumer_close string
  | router_close Router
  | peers_delete string string
  | rooms_delete string
  | ffmpeg_run string
  | recorder_kill string
  | file_unlink string
  | emit target message

text \<open>The three injectable services share one state: \<^verbatim>\<open>RoomService.rooms\<close>,
  \<^verbatim>\<open>MediasoupService.routers\<close>, \<^verbatim>\<open>RecordingService.recordings\<close> and
  \<^verbatim>\<open>RecordingService.activeRecorders\<close>, and the trace of effects so far.\<close>

record Server =
  rooms :: "RoomInfo jsmap"
  routers :: "Router jsmap"
  recordings :: "RecordingInfo jsmap"
  activeRecorders :: "string jsmap"
  trace :: "effect list"

definition initial :: Server where
  "initial = \<lparr>rooms = [], routers = [], recordings = [], activeRecorders = [], trace = []\<rparr>"

definition effects :: "effect list \<Rightarrow> Server \<Rightarrow> Server" where
  "effects es s = s\<lparr>trace := trace s @ es\<rparr>"

section \<open>MediasoupService\<close>

text \<open>\<^verbatim>\<open>createRouter\<close>: the worker's answer (a router, or the error it throws) is an
  input; it is asked only when the room has no router yet.\<close>

definition createRouter :: "string \<Rightarrow> error + Router \<Rightarrow> Server \<Rightarrow> (error + Router) \<times> Server" where
  "createRouter roomId worker s =
     (case map_of (routers s) roomId of
        Some r \<Rightarrow> (Inr r, s)
      | None \<Rightarrow>
          (case worker of
             Inl e \<Rightarrow> (Inl e, s)
           | Inr r \<Rightarrow> (Inr r, s\<lparr>routers := AList.update roomId r (routers s)\<rparr>)))"

definition removeRouter :: "string \<Rightarrow> Server \<Rightarrow> Server" where
  "removeRouter roomId s =
     (case map_of (routers s) roomId of
        None \<Rightarrow> s
      | Some r \<Rightarrow> (effects [router_close r] s)\<lparr>routers := AList.delete roomId (routers s)\<rparr>)"

definition getRouterRtpCapabilities :: "string \<Rightarrow> Server \<Rightarrow> Router option" where
  "getRouterRtpCapabilities roomId s = map_of (routers s) roomId"

text \<open>
  \<^verbatim>\<open>createWebRtcTransport\<close>: the options it hands to \<^verbatim>\<open>router.createWebRtcTransport\<close> are
  the listen addresses, the protocol flags and one bitrate that depends on the
  direction. It passes no \<^verbatim>\<open>appData\<close>, so the transport object that comes back has
  none, and the requested direction is recorded nowhere on it. \<open>engine\<close> is the router's
  answer: the id of the new transport, or the error, which the method throws again.
\<close>

definition createWebRtcTransport :: "string \<Rightarrow> error + string \<Rightarrow> error + Transport" where
  "createWebRtcTransport direction engine =
     (case engine of
        Inl e \<Rightarrow> Inl e
      | Inr transportId \<Rightarrow> Inr \<lparr>transport_id = transportId, appData_direction = None\<rparr>)"

section \<open>RoomService\<close>

definition createRoom :: "string \<Rightarrow> string \<Rightarrow> error + Router \<Rightarrow> Server \<Rightarrow> (error + RoomInfo) \<times> Server" where
  "createRoom uuid roomName worker s =
     (case createRouter uuid worker s of
        (Inl e, s1) \<Rightarrow> (Inl e, s1)
      | (Inr r, s1) \<Rightarrow>
          (let room = \<lparr>room_id = uuid, room_name = roomName, peers = [], router = r,
                       recording = \<lparr>isRecording = False, recordingId = None,
                                    startTime = None, filePath = None\<rparr>\<rparr>
           in (Inr room, s1\<lparr>rooms := AList.update uuid room (rooms s1)\<rparr>)))"

definition getRoom :: "string \<Rightarrow> Server \<Rightarrow> RoomInfo option" where
  "getRoom roomId s = map_of (rooms s) roomId"

definition getRoomByName :: "string \<Rightarrow> Server \<Rightarrow> RoomInfo option" where
  "getRoomByName roomName s = find (\<lambda>room. room_name room = roomName) (map snd (rooms s))"

definition joinRoom :: "string \<Rightarrow> string \<Rightarrow> string \<Rightarrow> Server \<Rightarrow> (error + PeerInfo) \<times> Server" where
  "joinRoom roomId peerId peerName s =
     (case map_of (rooms s) roomId of
        None \<Rightarrow> (Inl (Error (''Room '' @ roomId @ '' not found'')), s)
      | Some room \<Rightarrow>
          if map_of (peers room) peerId \<noteq> None
          then (Inl (Error (''Peer '' @ peerId @ '' already in room'')), s)
          else
            (let peer = \<lparr>peer_id = peerId, peer_name = peerName,
                         transports = [], producers = [], consumers = []\<rparr>;
                 room' = room\<lparr>peers := AList.update peerId peer (peers room)\<rparr>
             in (Inr peer, s\<lparr>rooms := AList.update roomId room' (rooms s)\<rparr>)))"

text \<open>The three \<^verbatim>\<open>for ... of\<close> loops of \<^verbatim>\<open>leaveRoom\<close> over the peer's maps.\<close>

definition closePeer :: "PeerInfo \<Rightarrow> effect list" where
  "closePeer peer =
     map (\<lambda>t. transport_close (transport_id t)) (map snd (transports peer))
     @ map (\<lambda>p. producer_close (producer_id p)) (map snd (producers peer))
     @ map (\<lambda>c. consumer_close (consumer_id c)) (map snd (consumers peer))"

text \<open>\<^verbatim>\<open>room.peers.size\<close> of a registered room.\<close>

definition peersCount :: "string \<Rightarrow> Server \<Rightarrow> nat" where
  "peersCount roomId s = (case map_of (rooms s) roomId of None \<Rightarrow> 0 | Some room \<Rightarrow> length (peers room))"

text \<open>
  \<^verbatim>\<open>leaveRoom\<close> calls \<^verbatim>\<open>closeRoom\<close> when the room has become empty, and \<^verbatim>\<open>closeRoom\<close>
  calls \<^verbatim>\<open>leaveRoom\<close> for every peer of the room. \<open>closeRoomPeers\<close> is the loop of
  \<^verbatim>\<open>closeRoom\<close>: each turn deletes only the entry it visits, so iterating the live map
  visits the entries the map had when the loop began.
\<close>

function leaveRoom :: "string \<Rightarrow> string \<Rightarrow> Server \<Rightarrow> bool \<times> Server"
  and closeRoom :: "string \<Rightarrow> Server \<Rightarrow> bool \<times> Server"
  and closeRoomPeers :: "string \<Rightarrow> string list \<Rightarrow> Server \<Rightarrow> Server"
where
  "leaveRoom roomId peerId s =
     (case map_of (rooms s) roomId of
        None \<Rightarrow> (False, s)
      | Some room \<Rightarrow>
          (case map_of (peers room) peerId of
             None \<Rightarrow> (False, s)
           | Some peer \<Rightarrow>
               (let room' = room\<lparr>peers := AList.delete peerId (peers room)\<rparr>;
                    s' = (effects (closePeer peer @ [peers_delete roomId peerId]) s)
                           \<lparr>rooms := AList.update roomId room' (rooms s)\<rparr>
                in if length (peers room') = 0
                   then (True, snd (closeRoom roomId s'))
                   else (True, s'))))"
| "closeRoom roomId s =
     (case map_of (rooms s) roomId of
        None \<Rightarrow> (False, s)
      | Some room \<Rightarrow>
          (let s1 = closeRoomPeers roomId (map (\<lambda>p. peer_id (snd p)) (peers room)) s;
               s2 = removeRouter roomId s1
           in (True, (effects [rooms_delete roomId] s2)
                       \<lparr>rooms := AList.delete roomId (rooms s2)\<rparr>)))"
| "closeRoomPeers roomId [] s = s"
| "closeRoomPeers roomId (p # ps) s = closeRoomPeers roomId ps (snd (leaveRoom roomId p s))"
  by pat_completeness auto

termination
  by (relation "measure (\<lambda>x. case x of
         Inl (roomId, peerId, s) \<Rightarrow> 2
       | Inr (Inl (roomId, s)) \<Rightarrow> 4 * peersCount roomId s + 1
       | Inr (Inr (roomId, ps, s)) \<Rightarrow> 4 * length ps)")
     (auto simp: peersCount_def effects_def AList.update_conv')


definition getPeer :: "string \<Rightarrow> string \<Rightarrow> Server \<Rightarrow> PeerInfo option" where
  "getPeer roomId peerId s =
     (case map_of (rooms s) roomId of None \<Rightarrow> None | Some room \<Rightarrow> map_of (peers room) peerId)"

definition getRoomPeers :: "string \<Rightarrow> Server \<Rightarrow> PeerInfo list" where
  "getRoomPeers roomId s =
     (case map_of (rooms s) roomId of None \<Rightarrow> [] | Some room \<Rightarrow> map snd (peers room))"

definition getRoomPeersExcept :: "string \<Rightarrow> string \<Rightarrow> Server \<Rightarrow> PeerInfo list" where
  "getRoomPeersExcept roomId excludePeerId s =
     (case map_of (rooms s) roomId of
        None \<Rightarrow> []
      | Some room \<Rightarrow> filter (\<lambda>peer. peer_id peer \<noteq> excludePeerId) (map snd (peers room)))"

definition updateRoomRecordingStatus ::
  "string \<Rightarrow> bool \<Rightarrow> string option \<Rightarrow> string option \<Rightarrow> nat \<Rightarrow> Server \<Rightarrow> Server" where
  "updateRoomRecordingStatus roomId isRec recId path now s =
     (case map_of (rooms s) roomId of
        None \<Rightarrow> s
      | Some room \<Rightarrow>
          (let r = (recording room)\<lparr>isRecording := isRec, recordingId := recId, filePath := path\<rparr>;
               r' = (if isRec then r\<lparr>startTime := Some now\<rparr> else r)
           in s\<lparr>rooms := AList.update roomId (room\<lparr>recording := r'\<rparr>) (rooms s)\<rparr>))"

definition isRoomRecording :: "string \<Rightarrow> Server \<Rightarrow> bool" where
  "isRoomRecording roomId s =
     (case map_of (rooms s) roomId of None \<Rightarrow> False | Some room \<Rightarrow> isRecording (recording room))"

text \<open>A peer object is mutated in place: the entry of the room's peer map changes, and
  with it the room's entry in \<^verbatim>\<open>rooms\<close>.\<close>

definition updatePeer :: "string \<Rightarrow> string \<Rightarrow> (PeerInfo \<Rightarrow> PeerInfo) \<Rightarrow> Server \<Rightarrow> Server" where
  "updatePeer roomId peerId f s =
     (case map_of (rooms s) roomId of
        None \<Rightarrow> s
      | Some room \<Rightarrow>
          (case map_of (peers room) peerId of
             None \<Rightarrow> s
           | Some peer \<Rightarrow>
               s\<lparr>rooms := AList.update roomId
                    (room\<lparr>peers := AList.update peerId (f peer) (peers room)\<rparr>) (rooms s)\<rparr>))"

section \<open>RecordingService\<close>

text \<open>
  What the environment answers during one \<^verbatim>\<open>startRecording\<close> call: the uuid, the
  clock reads (\<open>env_timestamp\<close> and \<open>env_now\<close> are the two \<^verbatim>\<open>new Date()\<close> before the
  \<^verbatim>\<open>await\<close>s, \<open>env_nowRoom\<close> is the one \<^verbatim>\<open>updateRoomRecordingStatus\<close> makes after
  them), the file path \<^verbatim>\<open>path.join(outputPath, filename)\<close> computed from the
  configuration (the file name is built from the room name and the time stamp), the
  media engine's answer to \<^verbatim>\<open>createPlainTransport\<close> (the port, or the error thrown) and
  what FFmpeg does: it emits \<^verbatim>\<open>start\<close>, it emits \<^verbatim>\<open>error\<close>, or building the command throws.
\<close>

datatype ffmpeg_outcome = ffmpeg_start | ffmpeg_error error | ffmpeg_throw error

record StartEnv =
  env_uuidv4 :: string
  env_pathOf :: "string \<Rightarrow> string \<Rightarrow> string"
  env_timestamp :: string
  env_now :: nat
  env_nowRoom :: nat
  env_plainTransport :: "error + nat"
  env_ffmpeg :: ffmpeg_outcome

definition startFFmpegRecording :: "string \<Rightarrow> ffmpeg_outcome \<Rightarrow> Server \<Rightarrow> (error + unit) \<times> Server" where
  "startFFmpegRecording recId outcome s =
     (case outcome of
        ffmpeg_throw e \<Rightarrow> (Inl e, s)
      | ffmpeg_error e \<Rightarrow>
          (Inl e, (effects [ffmpeg_run recId] s)
                    \<lparr>activeRecorders := AList.delete recId (activeRecorders s)\<rparr>)
      | ffmpeg_start \<Rightarrow>
          (Inr (), (effects [ffmpeg_run recId] s)
                     \<lparr>activeRecorders := AList.update recId recId (activeRecorders s)\<rparr>))"

text \<open>In the \<^verbatim>\<open>catch\<close> branch the local \<^verbatim>\<open>recordingInfo\<close> gets status \<^verbatim>\<open>failed\<close> and the
  error is thrown again; the object was not stored, so only the error leaves the call.\<close>

definition startRecording :: "StartEnv \<Rightarrow> string \<Rightarrow> Server \<Rightarrow> (error + RecordingInfo) \<times> Server" where
  "startRecording env roomId s =
     (case getRoom roomId s of
        None \<Rightarrow> (Inl (Error (''Room '' @ roomId @ '' not found'')), s)
      | Some room \<Rightarrow>
          if isRoomRecording roomId s
          then (Inl (Error (''Room '' @ roomId @ '' is already being recorded'')), s)
          else
            (let path = env_pathOf env (room_name room) (env_timestamp env);
                 recordingInfo = \<lparr>rec_id = env_uuidv4 env, rec_roomId = roomId, rec_filePath = path,
                                  rec_startTime = env_now env, rec_endTime = None,
                                  rec_status = st_recording,
                                  rec_participants = map fst (peers room)\<rparr>
             in case env_plainTransport env of
                  Inl e \<Rightarrow> (Inl e, s)
                | Inr port \<Rightarrow>
                    (case startFFmpegRecording (env_uuidv4 env) (env_ffmpeg env) s of
                       (Inl e, s1) \<Rightarrow> (Inl e, s1)
                     | (Inr u, s1) \<Rightarrow>
                         (Inr recordingInfo,
                          updateRoomRecordingStatus roomId True (Some (env_uuidv4 env)) (Some path)
                            (env_nowRoom env)
                            (s1\<lparr>recordings :=
                                  AList.update (env_uuidv4 env) recordingInfo (recordings s1)\<rparr>)))))"

text \<open>\<^verbatim>\<open>stopRecording\<close>: \<open>kill\<close> is the error \<^verbatim>\<open>recorder.kill('SIGINT')\<close> throws, if any.\<close>

definition stopRecording :: "nat \<Rightarrow> error option \<Rightarrow> string \<Rightarrow> Server \<Rightarrow> (error + RecordingInfo) \<times> Server" where
  "stopRecording now kill recId s =
     (case map_of (recordings s) recId of
        None \<Rightarrow> (Inl (Error (''Recording '' @ recId @ '' not found'')), s)
      | Some r \<Rightarrow>
          if rec_status r \<noteq> st_recording
          then (Inl (Error (''Recording '' @ recId @ '' is not active'')), s)
          else
            (case (case map_of (activeRecorders s) recId of
                     None \<Rightarrow> Inr s
                   | Some recorder \<Rightarrow>
                       (case kill of
                          Some e \<Rightarrow> Inl e
                        | None \<Rightarrow>
                            Inr ((effects [recorder_kill recorder] s)
                                   \<lparr>activeRecorders := AList.delete recId (activeRecorders s)\<rparr>))) of
               Inl e \<Rightarrow>
                 (Inl e, s\<lparr>recordings := AList.update recId (r\<lparr>rec_status := st_failed\<rparr>) (recordings s)\<rparr>)
             | Inr s1 \<Rightarrow>
                 (let r' = r\<lparr>rec_endTime := Some now, rec_status := st_stopped\<rparr>
                  in (Inr r',
                      updateRoomRecordingStatus (rec_roomId r) False None None now
                        (s1\<lparr>recordings := AList.update recId r' (recordings s1)\<rparr>)))))"

definition getRecording :: "string \<Rightarrow> Server \<Rightarrow> RecordingInfo option" where
  "getRecording recId s = map_of (recordings s) recId"

definition getAllRecordings :: "Server \<Rightarrow> RecordingInfo list" where
  "getAllRecordings s = map snd (recordings s)"

definition getRoomRecordings :: "string \<Rightarrow> Server \<Rightarrow> RecordingInfo list" where
  "getRoomRecordings roomId s = filter (\<lambda>r. rec_roomId r = roomId) (map snd (recordings s))"

text \<open>\<^verbatim>\<open>deleteRecording\<close> calls \<^verbatim>\<open>stopRecording\<close> without awaiting it: the body has no
  \<^verbatim>\<open>await\<close>, so it runs at once and a thrown error stays in the dropped promise.
  \<open>fileExists\<close> is the answer of \<^verbatim>\<open>fs.existsSync\<close>.\<close>

definition deleteRecording :: "nat \<Rightarrow> error option \<Rightarrow> bool \<Rightarrow> string \<Rightarrow> Server \<Rightarrow> bool \<times> Server" where
  "deleteRecording now kill fileExists recId s =
     (case map_of (recordings s) recId of
        None \<Rightarrow> (False, s)
      | Some r \<Rightarrow>
          (let s1 = (if rec_status r = st_recording then snd (stopRecording now kill recId s) else s);
               s2 = (if fileExists then effects [file_unlink (rec_filePath r)] s1 else s1)
           in (True, s2\<lparr>recordings := AList.delete recId (recordings s2)\<rparr>)))"

text \<open>The handlers of FFmpeg's \<^verbatim>\<open>end\<close> event and of an \<^verbatim>\<open>error\<close> event after the start.\<close>

definition onFfmpegEnd :: "string \<Rightarrow> Server \<Rightarrow> Server" where
  "onFfmpegEnd recId s =
     (let s1 = s\<lparr>activeRecorders := AList.delete recId (activeRecorders s)\<rparr>
      in case map_of (recordings s1) recId of
           None \<Rightarrow> s1
         | Some r \<Rightarrow>
             if rec_status r = st_stopped
             then s1\<lparr>recordings := AList.update recId (r\<lparr>rec_status := st_completed\<rparr>) (recordings s1)\<rparr>
             else s1)"

definition onFfmpegError :: "string \<Rightarrow> Server \<Rightarrow> Server" where
  "onFfmpegError recId s = s\<lparr>activeRecorders := AList.delete recId (activeRecorders s)\<rparr>"


section \<open>WebRTCGateway\<close>

definition emitTo :: "target \<Rightarrow> message \<Rightarrow> Server \<Rightarrow> Server" where
  "emitTo t m s = effects [emit t m] s"

text \<open>The \<^verbatim>\<open>catch\<close> block of every handler: \<^verbatim>\<open>socket.emit('error', {message})\<close>.\<close>

definition emitError :: "Socket \<Rightarrow> error \<Rightarrow> Server \<Rightarrow> Server" where
  "emitError socket e s = (case e of Error m \<Rightarrow> emitTo (socket_emit (data_peerId socket)) (error_msg m) s)"

text \<open>\<^verbatim>\<open>handleJoin\<close>: \<open>uuid\<close> and \<open>worker\<close> are the room id and the worker's answer used
  if the room has to be created.\<close>

definition handleJoin :: "string \<Rightarrow> error + Router \<Rightarrow> Socket \<Rightarrow> string \<Rightarrow> string \<Rightarrow> Server \<Rightarrow> Socket \<times> Server" where
  "handleJoin uuid worker socket roomName peerName s =
     (let peerId = data_peerId socket
      in case (case getRoomByName roomName s of
                 Some room \<Rightarrow> (Inr room, s)
               | None \<Rightarrow> createRoom uuid roomName worker s) of
           (Inl e, s1) \<Rightarrow> (socket, emitError socket e s1)
         | (Inr room, s1) \<Rightarrow>
             (case joinRoom (room_id room) peerId peerName s1 of
                (Inl e, s2) \<Rightarrow> (socket, emitError socket e s2)
              | (Inr peer, s2) \<Rightarrow>
                  (let socket' = socket\<lparr>data_roomId := Some (room_id room),
                                         socket_rooms := List.insert (room_id room) (socket_rooms socket)\<rparr>;
                       rtpCapabilities = getRouterRtpCapabilities (room_id room) s2;
                       s3 = emitTo (socket_emit peerId)
                              (joined peerId (room_id room) rtpCapabilities
                                 (isRecording (recording room))) s2;
                       otherPeers = getRoomPeersExcept (room_id room) peerId s3;
                       s4 = emitTo (socket_to peerId (room_id room)) (peerJoined peerId peerName) s3;
                       s5 = emitTo (socket_emit peerId)
                              (existingPeers (map (\<lambda>p. (peer_id p, peer_name p)) otherPeers)) s4
                   in (socket', s5))))"

text \<open>\<^verbatim>\<open>handleDisconnect\<close>; \<^verbatim>\<open>roomId && peerId\<close> is false for \<^verbatim>\<open>undefined\<close> and for the
  empty string.\<close>

definition handleDisconnect :: "Socket \<Rightarrow> Server \<Rightarrow> Server" where
  "handleDisconnect socket s =
     (case data_roomId socket of
        None \<Rightarrow> s
      | Some roomId \<Rightarrow>
          if roomId \<noteq> [] \<and> data_peerId socket \<noteq> []
          then emitTo (socket_to (data_peerId socket) roomId) (peerLeft (data_peerId socket))
                 (snd (leaveRoom roomId (data_peerId socket) s))
          else s)"

text \<open>\<^verbatim>\<open>handleCreateTransport\<close>: \<open>engine\<close> is the answer of
  \<^verbatim>\<open>mediasoupService.createWebRtcTransport(room.router, data.direction)\<close>, the transport
  object or the error thrown.\<close>

definition handleCreateTransport :: "Socket \<Rightarrow> string \<Rightarrow> string \<Rightarrow> error + Transport \<Rightarrow> Server \<Rightarrow> Server" where
  "handleCreateTransport socket peerId direction engine s =
     (case data_roomId socket of
        None \<Rightarrow> emitError socket (Error ''Room not found'') s
      | Some roomId \<Rightarrow>
          (case getRoom roomId s of
             None \<Rightarrow> emitError socket (Error ''Room not found'') s
           | Some room \<Rightarrow>
               (case getPeer roomId peerId s of
                  None \<Rightarrow> emitError socket (Error ''Peer not found'') s
                | Some peer \<Rightarrow>
                    (case engine of
                       Inl e \<Rightarrow> emitError socket e s
                     | Inr t \<Rightarrow>
                         emitTo (socket_emit (data_peerId socket)) (transportCreated (transport_id t))
                           (updatePeer roomId peerId
                              (\<lambda>p. p\<lparr>transports := AList.update (transport_id t) t (transports p)\<rparr>)
                              s)))))"

text \<open>\<^verbatim>\<open>handleProduce\<close>: \<open>engine\<close> is the answer of \<^verbatim>\<open>transport.produce\<close>.\<close>

definition handleProduce :: "Socket \<Rightarrow> string \<Rightarrow> string \<Rightarrow> string \<Rightarrow> error + Producer \<Rightarrow> Server \<Rightarrow> Server" where
  "handleProduce socket peerId transportId kind engine s =
     (case data_roomId socket of
        None \<Rightarrow> emitError socket (Error ''Peer not found'') s
      | Some roomId \<Rightarrow>
          (case getPeer roomId peerId s of
             None \<Rightarrow> emitError socket (Error ''Peer not found'') s
           | Some peer \<Rightarrow>
               (case map_of (transports peer) transportId of
                  None \<Rightarrow> emitError socket (Error ''Transport not found'') s
                | Some transport \<Rightarrow>
                    (case engine of
                       Inl e \<Rightarrow> emitError socket e s
                     | Inr producer \<Rightarrow>
                         emitTo (socket_to (data_peerId socket) roomId)
                           (newProducer peerId (producer_id producer) kind)
                           (emitTo (socket_emit (data_peerId socket)) (produced (producer_id producer))
                              (updatePeer roomId peerId
                                 (\<lambda>p. p\<lparr>producers :=
                                          AList.update (producer_id producer) producer (producers p)\<rparr>)
                                 s))))))"

text \<open>\<^verbatim>\<open>handleConsume\<close>: \<open>canConsume\<close> is the answer of \<^verbatim>\<open>room.router.canConsume\<close> and
  \<open>engine\<close> the answer of \<^verbatim>\<open>recvTransport.consume\<close>.\<close>

definition handleConsume :: "Socket \<Rightarrow> string \<Rightarrow> string \<Rightarrow> bool \<Rightarrow> error + Consumer \<Rightarrow> Server \<Rightarrow> Server" where
  "handleConsume socket peerId producerId canConsume engine s =
     (case data_roomId socket of
        None \<Rightarrow> emitError socket (Error ''Room or peer not found'') s
      | Some roomId \<Rightarrow>
          (case (getRoom roomId s, getPeer roomId peerId s) of
             (Some room, Some peer) \<Rightarrow>
               (case find (\<lambda>p. map_of (producers p) producerId \<noteq> None) (getRoomPeers roomId s) of
                  None \<Rightarrow> emitError socket (Error ''Producer not found'') s
                | Some producerPeer \<Rightarrow>
                    (case map_of (producers producerPeer) producerId of
                       None \<Rightarrow> emitError socket (Error ''Producer not found'') s
                     | Some producer \<Rightarrow>
                         if \<not> canConsume then emitError socket (Error ''Cannot consume'') s
                         else
                           (case find (\<lambda>t. appData_direction t = Some ''recv'')
                                   (map snd (transports peer)) of
                              None \<Rightarrow> emitError socket (Error ''Receive transport not found'') s
                            | Some recvTransport \<Rightarrow>
                                (case engine of
                                   Inl e \<Rightarrow> emitError socket e s
                                 | Inr consumer \<Rightarrow>
                                     emitTo (socket_emit (data_peerId socket))
                                       (consumed (consumer_id consumer) (producer_id producer)
                                          (consumer_kind consumer) (consumer_rtpParameters consumer))
                                       (updatePeer roomId peerId
                                          (\<lambda>p. p\<lparr>consumers :=
                                                   AList.update (consumer_id consumer) consumer
                                                     (consumers p)\<rparr>)
                                          s)))))
           | _ \<Rightarrow> emitError socket (Error ''Room or peer not found'') s))"

definition handleStartRecording :: "StartEnv \<Rightarrow> Socket \<Rightarrow> Server \<Rightarrow> Server" where
  "handleStartRecording env socket s =
     (case data_roomId socket of
        None \<Rightarrow> emitError socket (Error ''Room undefined not found'') s
      | Some roomId \<Rightarrow>
          (case startRecording env roomId s of
             (Inl e, s1) \<Rightarrow> emitError socket e s1
           | (Inr r, s1) \<Rightarrow>
               emitTo (server_to roomId) (recordingStarted (rec_id r) (rec_startTime r)) s1))"

definition handleStopRecording :: "nat \<Rightarrow> error option \<Rightarrow> Socket \<Rightarrow> string \<Rightarrow> Server \<Rightarrow> Server" where
  "handleStopRecording now kill socket recId s =
     (case stopRecording now kill recId s of
        (Inl e, s1) \<Rightarrow> emitError socket e s1
      | (Inr r, s1) \<Rightarrow>
          emitTo (server_to (rec_roomId r))
            (recordingStopped (rec_id r) (rec_endTime r) (rec_filePath r)) s1)"

section \<open>The client's participant list\<close>

text \<open>
  The \<^verbatim>\<open>VideoCall\<close> component keeps \<^verbatim>\<open>participants\<close> and \<^verbatim>\<open>localPeerId\<close> as React state
  and \<^verbatim>\<open>participantsRef\<close> and \<^verbatim>\<open>recentlyProcessedPeers\<close> as refs. The handlers are
  closures made by \<^verbatim>\<open>initializeWebRTC\<close>; the \<^verbatim>\<open>localPeerId\<close> they read is the binding of
  the render that made them, so it is an argument \<open>lp\<close> of every handler here. The
  stream map, which the handlers also update, does not enter the participant list and is
  left out.
\<close>

record ClientPeerInfo =
  cp_id :: string
  cp_name :: string

record VideoCall =
  participants :: "ClientPeerInfo list"
  participantsRef :: "ClientPeerInfo list"
  localPeerId :: "string option"
  recentlyProcessedPeers :: "string list"

definition mount :: VideoCall where
  "mount = \<lparr>participants = [], participantsRef = [], localPeerId = None,
            recentlyProcessedPeers = []\<rparr>"

text \<open>\<^verbatim>\<open>Array.from(new Map(ps.map(p => [p.id, p])).values())\<close>.\<close>

definition dedupeById :: "ClientPeerInfo list \<Rightarrow> ClientPeerInfo list" where
  "dedupeById ps = map snd (foldl (\<lambda>m p. AList.update (cp_id p) p m) [] ps)"

text \<open>\<^verbatim>\<open>setParticipantsWithLogging\<close>: the updater may write the refs, so it maps the
  previous list and the component to the next list and the component.\<close>

definition setParticipantsWithLogging ::
  "string option \<Rightarrow> (ClientPeerInfo list \<Rightarrow> VideoCall \<Rightarrow> ClientPeerInfo list \<times> VideoCall) \<Rightarrow> VideoCall \<Rightarrow> VideoCall" where
  "setParticipantsWithLogging lp newParticipants vc =
     (case newParticipants (participants vc) vc of
        (next, vc') \<Rightarrow> vc'\<lparr>participants := filter (\<lambda>p. Some (cp_id p) \<noteq> lp) next\<rparr>)"

definition onJoined :: "string \<Rightarrow> VideoCall \<Rightarrow> VideoCall" where
  "onJoined peerId vc = vc\<lparr>localPeerId := Some peerId\<rparr>"

text \<open>\<^verbatim>\<open>!localPeerId\<close> holds for \<^verbatim>\<open>null\<close> and for the empty string.\<close>

definition onPeerJoined :: "string option \<Rightarrow> ClientPeerInfo \<Rightarrow> VideoCall \<Rightarrow> VideoCall" where
  "onPeerJoined lp peer vc =
     (if cp_id peer \<in> set (recentlyProcessedPeers vc) then vc
      else setParticipantsWithLogging lp
             (\<lambda>prev c.
                if lp = None \<or> lp = Some [] then (prev, c)
                else if Some (cp_id peer) = lp then (prev, c)
                else if \<exists>p \<in> set prev. cp_id p = cp_id peer then (prev, c)
                else
                  (let deduped = dedupeById (prev @ [peer])
                   in (deduped,
                       c\<lparr>recentlyProcessedPeers := List.insert (cp_id peer) (recentlyProcessedPeers c),
                         participantsRef := deduped\<rparr>)))
             vc)"

definition onParticipantList :: "string option \<Rightarrow> ClientPeerInfo list \<Rightarrow> VideoCall \<Rightarrow> VideoCall" where
  "onParticipantList lp ps vc =
     (let deduped = dedupeById ps
      in (setParticipantsWithLogging lp (\<lambda>prev c. (deduped, c)) vc)\<lparr>participantsRef := deduped\<rparr>)"

definition onPeerLeft :: "string option \<Rightarrow> string \<Rightarrow> VideoCall \<Rightarrow> VideoCall" where
  "onPeerLeft lp peerId vc =
     setParticipantsWithLogging lp
       (\<lambda>prev c. (let updated = filter (\<lambda>p. cp_id p \<noteq> peerId) prev
                  in (updated, c\<lparr>participantsRef := updated\<rparr>)))
       vc"

text \<open>
  What reaches the component: the socket messages as \<^verbatim>\<open>WebRTCClient\<close> forwards them
  (\<^verbatim>\<open>existingPeers\<close> calls \<^verbatim>\<open>onPeerJoined\<close> for each peer of the list) and the timer that
  takes a peer id out of \<^verbatim>\<open>recentlyProcessedPeers\<close> a second after it was added.
\<close>

datatype client_event =
    ev_joined string
  | ev_existingPeers "ClientPeerInfo list"
  | ev_peerJoined ClientPeerInfo
  | ev_peerLeft string
  | ev_participantList "ClientPeerInfo list"
  | ev_timeout string

fun deliver :: "string option \<Rightarrow> client_event \<Rightarrow> VideoCall \<Rightarrow> VideoCall" where
  "deliver lp (ev_joined peerId) vc = onJoined peerId vc"
| "deliver lp (ev_existingPeers ps) vc = fold (onPeerJoined lp) ps vc"
| "deliver lp (ev_peerJoined peer) vc = onPeerJoined lp peer vc"
| "deliver lp (ev_peerLeft peerId) vc = onPeerLeft lp peerId vc"
| "deliver lp (ev_participantList ps) vc = onParticipantList lp ps vc"
| "deliver lp (ev_timeout peerId) vc =
     vc\<lparr>recentlyProcessedPeers := removeAll peerId (recentlyProcessedPeers vc)\<rparr>"

text \<open>
  Which binding a handler has. \<^verbatim>\<open>initializeWebRTC\<close> makes a new \<^verbatim>\<open>WebRTCClient\<close>, which
  opens a socket of its own, and gives it handlers that are closures of the render whose
  \<^verbatim>\<open>initializeWebRTC\<close> it is: the \<^verbatim>\<open>localPeerId\<close> they read, and the one
  \<^verbatim>\<open>setParticipantsWithLogging\<close> reads when they call it, is the state as that render
  saw it, for as long as the client lives. The function runs from the mount effect and
  whenever the button \<^verbatim>\<open>Connect & Start Call\<close> is pressed; the button is rendered as long
  as \<^verbatim>\<open>hasStarted\<close> is false, and \<^verbatim>\<open>hasStarted\<close> is set only after the join has been
  acknowledged and camera and microphone have been asked for. No client is
  disconnected before the component unmounts. \<open>closures\<close> lists the binding of every
  client made so far, oldest first; a press sees the render of the current state.
\<close>

record Browser =
  component :: VideoCall
  closures :: "string option list"

definition initializeWebRTC :: "Browser \<Rightarrow> Browser" where
  "initializeWebRTC b = b\<lparr>closures := closures b @ [localPeerId (component b)]\<rparr>"

text \<open>
  What happens in the browser: the button is pressed, a message arrives on the socket of
  the \<open>k\<close>-th client and is handled by that client's handlers, or a timer set by
  \<^verbatim>\<open>onPeerJoined\<close> fires.
\<close>

datatype browser_event =
    press_start
  | socket_message nat client_event
  | timer_fired string

fun browserStep :: "browser_event \<Rightarrow> Browser \<Rightarrow> Browser" where
  "browserStep press_start b = initializeWebRTC b"
| "browserStep (socket_message k ev) b =
     (if k < length (closures b)
      then b\<lparr>component := deliver (closures b ! k) ev (component b)\<rparr>
      else b)"
| "browserStep (timer_fired peerId) b =
     b\<lparr>component := deliver None (ev_timeout peerId) (component b)\<rparr>"

fun browserRun :: "browser_event list \<Rightarrow> Browser \<Rightarrow> Browser" where
  "browserRun [] b = b"
| "browserRun (e # es) b = browserRun es (browserStep e b)"

text \<open>The component after its mount effect has run \<^verbatim>\<open>initializeWebRTC\<close>.\<close>

definition mounted :: Browser where
  "mounted = initializeWebRTC \<lparr>component = mount, closures = []\<rparr>"


section \<open>Runs of the server\<close>

text \<open>A sequence of \<^verbatim>\<open>joinRoom\<close> and \<^verbatim>\<open>leaveRoom\<close> calls on one room. A call is
  successful when \<^verbatim>\<open>joinRoom\<close> returns the peer and when \<^verbatim>\<open>leaveRoom\<close> returns true.\<close>

datatype room_op = op_join string string | op_leave string

fun roomOp :: "string \<Rightarrow> room_op \<Rightarrow> Server \<Rightarrow> bool \<times> Server" where
  "roomOp roomId (op_join peerId peerName) s =
     (case joinRoom roomId peerId peerName s of
        (Inl e, s') \<Rightarrow> (False, s')
      | (Inr peer, s') \<Rightarrow> (True, s'))"
| "roomOp roomId (op_leave peerId) s = leaveRoom roomId peerId s"

fun isJoin :: "room_op \<Rightarrow> bool" where
  "isJoin (op_join peerId peerName) = True"
| "isJoin (op_leave peerId) = False"

fun runOps :: "string \<Rightarrow> room_op list \<Rightarrow> Server \<Rightarrow> Server" where
  "runOps roomId [] s = s"
| "runOps roomId (x # xs) s = runOps roomId xs (snd (roomOp roomId x s))"

fun successfulJoins :: "string \<Rightarrow> room_op list \<Rightarrow> Server \<Rightarrow> nat" where
  "successfulJoins roomId [] s = 0"
| "successfulJoins roomId (x # xs) s =
     (if isJoin x \<and> fst (roomOp roomId x s) then 1 else 0)
     + successfulJoins roomId xs (snd (roomOp roomId x s))"

fun successfulLeaves :: "string \<Rightarrow> room_op list \<Rightarrow> Server \<Rightarrow> nat" where
  "successfulLeaves roomId [] s = 0"
| "successfulLeaves roomId (x # xs) s =
     (if \<not> isJoin x \<and> fst (roomOp roomId x s) then 1 else 0)
     + successfulLeaves roomId xs (snd (roomOp roomId x s))"

text \<open>
  Everything that changes the server: the messages the gateway handles, the public
  methods of the services, and FFmpeg's events. Each carries what the environment
  supplies to that call. The transport a \<^verbatim>\<open>createTransport\<close> message stores is the one
  \<^verbatim>\<open>createWebRtcTransport\<close> makes from the router's answer.
\<close>

datatype server_op =
    do_handleJoin string "error + Router" Socket string string
  | do_handleDisconnect Socket
  | do_handleCreateTransport Socket string string "error + string"
  | do_handleProduce Socket string string string "error + Producer"
  | do_handleConsume Socket string string bool "error + Consumer"
  | do_handleStartRecording StartEnv Socket
  | do_handleStopRecording nat "error option" Socket string
  | do_createRoom string string "error + Router"
  | do_joinRoom string string string
  | do_leaveRoom string string
  | do_closeRoom string
  | do_startRecording StartEnv string
  | do_stopRecording nat "error option" string
  | do_deleteRecording nat "error option" bool string
  | do_onFfmpegEnd string
  | do_onFfmpegError string

fun exec :: "server_op \<Rightarrow> Server \<Rightarrow> Server" where
  "exec (do_handleJoin uuid worker socket roomName peerName) s =
     snd (handleJoin uuid worker socket roomName peerName s)"
| "exec (do_handleDisconnect socket) s = handleDisconnect socket s"
| "exec (do_handleCreateTransport socket peerId direction engine) s =
     handleCreateTransport socket peerId direction (createWebRtcTransport direction engine) s"
| "exec (do_handleProduce socket peerId transportId kind engine) s =
     handleProduce socket peerId transportId kind engine s"
| "exec (do_handleConsume socket peerId producerId canConsume engine) s =
     handleConsume socket peerId producerId canConsume engine s"
| "exec (do_handleStartRecording env socket) s = handleStartRecording env socket s"
| "exec (do_handleStopRecording now kill socket recId) s = handleStopRecording now kill socket recId s"
| "exec (do_createRoom uuid roomName worker) s = snd (createRoom uuid roomName worker s)"
| "exec (do_joinRoom roomId peerId peerName) s = snd (joinRoom roomId peerId peerName s)"
| "exec (do_leaveRoom roomId peerId) s = snd (leaveRoom roomId peerId s)"
| "exec (do_closeRoom roomId) s = snd (closeRoom roomId s)"
| "exec (do_startRecording env roomId) s = snd (startRecording env roomId s)"
| "exec (do_stopRecording now kill recId) s = snd (stopRecording now kill recId s)"
| "exec (do_deleteRecording now kill fileExists recId) s =
     snd (deleteRecording now kill fileExists recId s)"
| "exec (do_onFfmpegEnd recId) s = onFfmpegEnd recId s"
| "exec (do_onFfmpegError recId) s = onFfmpegError recId s"

fun execAll :: "server_op list \<Rightarrow> Server \<Rightarrow> Server" where
  "execAll [] s = s"
| "execAll (x # xs) s = execAll xs (exec x s)"

text \<open>\<^verbatim>\<open>uuidv4()\<close> never returns a room id twice: \<open>used\<close> are the ids handed out so far.\<close>

fun freshRoomIds :: "string list \<Rightarrow> server_op list \<Rightarrow> bool" where
  "freshRoomIds used [] = True"
| "freshRoomIds used (do_handleJoin uuid worker socket roomName peerName # xs) =
     (uuid \<notin> set used \<and> freshRoomIds (uuid # used) xs)"
| "freshRoomIds used (do_createRoom uuid roomName worker # xs) =
     (uuid \<notin> set used \<and> freshRoomIds (uuid # used) xs)"
| "freshRoomIds used (x # xs) = freshRoomIds used xs"

section \<open>Auxiliary states\<close>

text \<open>The server right after \<^verbatim>\<open>room.peers.delete(peerId)\<close> in \<^verbatim>\<open>leaveRoom\<close>.\<close>

definition afterLeave :: "string \<Rightarrow> string \<Rightarrow> RoomInfo \<Rightarrow> PeerInfo \<Rightarrow> Server \<Rightarrow> Server" where
  "afterLeave roomId peerId room peer s =
     (effects (closePeer peer @ [peers_delete roomId peerId]) s)
       \<lparr>rooms := AList.update roomId (room\<lparr>peers := AList.delete peerId (peers room)\<rparr>) (rooms s)\<rparr>"

text \<open>Two connections, and the server after each of them has joined the room \<^verbatim>\<open>lobby\<close>.\<close>

definition socketA :: Socket where
  "socketA = \<lparr>data_peerId = ''peer-a'', data_roomId = None, socket_rooms = []\<rparr>"

definition socketB :: Socket where
  "socketB = \<lparr>data_peerId = ''peer-b'', data_roomId = None, socket_rooms = []\<rparr>"

definition oneJoined :: Server where
  "oneJoined = snd (handleJoin ''room-1'' (Inr ''router-1'') socketA ''lobby'' ''Ann'' initial)"

definition twoJoined :: Server where
  "twoJoined = snd (handleJoin ''room-2'' (Inr ''router-2'') socketB ''lobby'' ''Bob'' oneJoined)"

definition socketAJoined :: Socket where
  "socketAJoined = fst (handleJoin ''room-1'' (Inr ''router-1'') socketA ''lobby'' ''Ann'' initial)"

text \<open>A recording of the room is started and then stopped.\<close>

definition startEnv :: StartEnv where
  "startEnv = \<lparr>env_uuidv4 = ''rec-1'',
               env_pathOf = (\<lambda>roomName stamp. ''recordings/recording-'' @ roomName @ ''-'' @ stamp @ ''.mp4''),
               env_timestamp = ''t1'', env_now = 100, env_nowRoom = 103,
               env_plainTransport = Inr 5004, env_ffmpeg = ffmpeg_start\<rparr>"

definition nowRecording :: Server where
  "nowRecording = snd (startRecording startEnv ''room-1'' oneJoined)"

definition afterStop :: Server where
  "afterStop = snd (stopRecording 200 None ''rec-1'' nowRecording)"

text \<open>The media engine has no port left for the plain transport.\<close>

definition noPortEnv :: StartEnv where
  "noPortEnv = startEnv\<lparr>env_plainTransport := Inl (Error ''no more available ports'')\<rparr>"

text \<open>Peer \<^verbatim>\<open>peer-a\<close> asks for a send transport, and then for a second one.\<close>

definition sendTransport1 :: Transport where
  "sendTransport1 = \<lparr>transport_id = ''t-1'', appData_direction = None\<rparr>"

definition sendTransport2 :: Transport where
  "sendTransport2 = \<lparr>transport_id = ''t-2'', appData_direction = None\<rparr>"

definition oneSend :: Server where
  "oneSend = handleCreateTransport socketAJoined ''peer-a'' ''send'' (Inr sendTransport1) oneJoined"

definition twoSend :: Server where
  "twoSend = handleCreateTransport socketAJoined ''peer-a'' ''send'' (Inr sendTransport2) oneSend"

text \<open>Peer \<^verbatim>\<open>peer-a\<close> asks for a send and for a receive transport and produces a video
  track on its send transport.\<close>

definition recvTransport1 :: Transport where
  "recvTransport1 = \<lparr>transport_id = ''t-3'', appData_direction = None\<rparr>"

definition videoProducer :: Producer where
  "videoProducer = \<lparr>producer_id = ''p-1'', producer_kind = ''video''\<rparr>"

definition producing :: Server where
  "producing =
     handleProduce socketAJoined ''peer-a'' ''t-1'' ''video'' (Inr videoProducer)
       (handleCreateTransport socketAJoined ''peer-a'' ''recv'' (Inr recvTransport1) oneSend)"

text \<open>The consumer the engine would make of that producer.\<close>

definition ownConsumer :: Consumer where
  "ownConsumer = \<lparr>consumer_id = ''c-1'', consumer_producerId = ''p-1'', consumer_kind = ''video'',
                  consumer_rtpParameters = ''rtp'', consumer_paused = True\<rparr>"

text \<open>The same through the gateway: the join, the two \<^verbatim>\<open>createTransport\<close> messages and
  the \<^verbatim>\<open>produce\<close> message.\<close>

definition consumeOps :: "server_op list" where
  "consumeOps =
     [do_handleJoin ''room-1'' (Inr ''router-1'') socketA ''lobby'' ''Ann'',
      do_handleCreateTransport socketAJoined ''peer-a'' ''send'' (Inr ''t-1''),
      do_handleCreateTransport socketAJoined ''peer-a'' ''recv'' (Inr ''t-3''),
      do_handleProduce socketAJoined ''peer-a'' ''t-1'' ''video'' (Inr videoProducer)]"

text \<open>FFmpeg fails to start.\<close>

definition ffmpegFailEnv :: StartEnv where
  "ffmpegFailEnv = startEnv\<lparr>env_ffmpeg := ffmpeg_error (Error ''ffmpeg exited with code 1'')\<rparr>"

definition peerAProducing :: PeerInfo where
  "peerAProducing =
     \<lparr>peer_id = ''peer-a'', peer_name = ''Ann'',
      transports = [(''t-1'', sendTransport1), (''t-3'', recvTransport1)],
      producers = [(''p-1'', videoProducer)], consumers = []\<rparr>"

text \<open>Bob joins, Ann leaves, a stranger's leave fails, Bob leaves.\<close>

definition fourOps :: "room_op list" where
  "fourOps = [op_join ''peer-b'' ''Bob'', op_leave ''peer-a'', op_leave ''peer-c'', op_leave ''peer-b'']"

text \<open>
  One browser tab, three connections. The user Ann opens the call page; the mount
  effect connects and the server answers. While the page still shows the start button
  she presses it twice. The server handles the three joins in the order of the
  connections and so sends, to each socket, its acknowledgement and then the peers that
  were in the room before it.
\<close>

definition socket1 :: Socket where
  "socket1 = \<lparr>data_peerId = ''id-1'', data_roomId = None, socket_rooms = []\<rparr>"

definition socket2 :: Socket where
  "socket2 = \<lparr>data_peerId = ''id-2'', data_roomId = None, socket_rooms = []\<rparr>"

definition socket3 :: Socket where
  "socket3 = \<lparr>data_peerId = ''id-3'', data_roomId = None, socket_rooms = []\<rparr>"

definition threeJoins :: "server_op list" where
  "threeJoins =
     [do_handleJoin ''room-1'' (Inr ''router-1'') socket1 ''lobby'' ''Ann'',
      do_handleJoin ''room-2'' (Inr ''router-2'') socket2 ''lobby'' ''Ann'',
      do_handleJoin ''room-3'' (Inr ''router-3'') socket3 ''lobby'' ''Ann'']"

text \<open>
  What the browser sees of it: the first connection's messages, the two presses, then
  the messages of the third connection, and only then the acknowledgement of the
  second, which the network has held back. Messages on one socket arrive in the order
  they were sent; nothing orders the messages of different sockets.
\<close>

definition lateAck :: "browser_event list" where
  "lateAck =
     [socket_message 0 (ev_joined ''id-1''),
      socket_message 0 (ev_existingPeers []),
      press_start,
      press_start,
      socket_message 2 (ev_joined ''id-3''),
      socket_message 2 (ev_existingPeers [\<lparr>cp_id = ''id-1'', cp_name = ''Ann''\<rparr>,
                                           \<lparr>cp_id = ''id-2'', cp_name = ''Ann''\<rparr>]),
      socket_message 1 (ev_joined ''id-2'')]"

text \<open>One press, and a delta that names the new connection arrives on its socket.\<close>

definition ownDelta :: "browser_event list" where
  "ownDelta =
     [socket_message 0 (ev_joined ''id-1''),
      press_start,
      socket_message 1 (ev_joined ''id-2''),
      socket_message 1 (ev_peerJoined \<lparr>cp_id = ''id-2'', cp_name = ''Ann''\<rparr>)]"

text \<open>An event of the first client, the one the mount effect made: a message on its
  socket other than \<^verbatim>\<open>participantList\<close>, which the gateway never sends, or a timer.\<close>

definition fromSocket :: "nat \<Rightarrow> browser_event \<Rightarrow> bool" where
  "fromSocket k e \<longleftrightarrow>
     (case e of
        press_start \<Rightarrow> False
      | timer_fired peerId \<Rightarrow> True
      | socket_message j ev \<Rightarrow> j = k \<and> (case ev of ev_participantList ps \<Rightarrow> False | _ \<Rightarrow> True))"

section \<open>Transports of the stored peers\<close>

text \<open>\<^verbatim>\<open>peer.transports\<close> of a peer of a registered room.\<close>

definition transportsOf :: "string \<Rightarrow> string \<Rightarrow> Server \<Rightarrow> Transport jsmap option" where
  "transportsOf roomId peerId s = map_option transports (getPeer roomId peerId s)"

text \<open>No stored transport has an \<^verbatim>\<open>appData.direction\<close>.\<close>

definition plainTransports :: "Server \<Rightarrow> bool" where
  "plainTransports s \<longleftrightarrow>
     (\<forall>roomId peerId ts t. transportsOf roomId peerId s = Some ts \<longrightarrow> t \<in> set ts \<longrightarrow>
        appData_direction (snd t) = None)"

text \<open>A step that stores no transport: a peer found afterwards holds no transport, or
  was there before with the same transports.\<close>

definition sameTransports :: "Server \<Rightarrow> Server \<Rightarrow> bool" where
  "sameTransports s s' \<longleftrightarrow>
     (\<forall>roomId peerId. transportsOf roomId peerId s' = None \<or>
                      transportsOf roomId peerId s' = Some [] \<or>
                      transportsOf roomId peerId s' = transportsOf roomId peerId s)"

section \<open>Recording state of a room\<close>

text \<open>\<^verbatim>\<open>room.recording.isRecording\<close> of a registered room.\<close>

definition flagOf :: "string \<Rightarrow> Server \<Rightarrow> bool option" where
  "flagOf roomId s = map_option (\<lambda>room. isRecording (recording room)) (map_of (rooms s) roomId)"

text \<open>A stored session with status \<^verbatim>\<open>recording\<close>.\<close>

definition activeIn :: "Server \<Rightarrow> string \<Rightarrow> RecordingInfo \<Rightarrow> bool" where
  "activeIn s recId r \<longleftrightarrow> map_of (recordings s) recId = Some r \<and> rec_status r = st_recording"

text \<open>
  What holds between calls when every call runs to its end before the next begins:
  the sessions have distinct ids, rooms and sessions only name room ids that were
  handed out, the room of a session with status \<^verbatim>\<open>recording\<close> is flagged as recording
  if it is still registered, and no room has two such sessions.
\<close>

definition recordingInv :: "string list \<Rightarrow> Server \<Rightarrow> bool" where
  "recordingInv used s \<longleftrightarrow>
     distinct (map fst (recordings s)) \<and>
     (\<forall>roomId. map_of (rooms s) roomId \<noteq> None \<longrightarrow> roomId \<in> set used) \<and>
     (\<forall>recId r. map_of (recordings s) recId = Some r \<longrightarrow> rec_roomId r \<in> set used) \<and>
     (\<forall>recId r. activeIn s recId r \<longrightarrow> flagOf (rec_roomId r) s \<noteq> Some False) \<and>
     (\<forall>recId recId' r r'. activeIn s recId r \<and> activeIn s recId' r' \<and> rec_roomId r = rec_roomId r'
         \<longrightarrow> recId = recId')"

text \<open>A step that leaves the sessions alone and changes no room's flag, though it may
  remove rooms.\<close>

definition frame :: "Server \<Rightarrow> Server \<Rightarrow> bool" where
  "frame s s' \<longleftrightarrow>
     recordings s' = recordings s \<and>
     (\<forall>roomId. flagOf roomId s' = None \<or> flagOf roomId s' = flagOf roomId s)"

section \<open>startRecording, await by await\<close>

text \<open>
  \<^verbatim>\<open>startRecording\<close> is an \<^verbatim>\<open>async\<close> function with two \<^verbatim>\<open>await\<close>s. While it waits, other
  handlers run. Its three stretches of code are: the checks and the construction of
  \<^verbatim>\<open>recordingInfo\<close>, up to \<^verbatim>\<open>await createPlainTransport\<close>; then, when the transport has
  arrived, building and running the FFmpeg command, up to the \<^verbatim>\<open>await\<close> of its promise;
  then, when FFmpeg has emitted \<^verbatim>\<open>start\<close> or \<^verbatim>\<open>error\<close>, the rest.
\<close>

definition startRecording_check :: "StartEnv \<Rightarrow> string \<Rightarrow> Server \<Rightarrow> error + RecordingInfo" where
  "startRecording_check env roomId s =
     (case getRoom roomId s of
        None \<Rightarrow> Inl (Error (''Room '' @ roomId @ '' not found''))
      | Some room \<Rightarrow>
          if isRoomRecording roomId s
          then Inl (Error (''Room '' @ roomId @ '' is already being recorded''))
          else Inr \<lparr>rec_id = env_uuidv4 env, rec_roomId = roomId,
                    rec_filePath = env_pathOf env (room_name room) (env_timestamp env),
                    rec_startTime = env_now env, rec_endTime = None,
                    rec_status = st_recording,
                    rec_participants = map fst (peers room)\<rparr>)"

definition startRecording_run :: "StartEnv \<Rightarrow> RecordingInfo \<Rightarrow> Server \<Rightarrow> error + Server" where
  "startRecording_run env info s =
     (case env_plainTransport env of
        Inl e \<Rightarrow> Inl e
      | Inr port \<Rightarrow>
          (case env_ffmpeg env of
             ffmpeg_throw e \<Rightarrow> Inl e
           | ffmpeg_error e \<Rightarrow> Inr (effects [ffmpeg_run (rec_id info)] s)
           | ffmpeg_start \<Rightarrow> Inr (effects [ffmpeg_run (rec_id info)] s)))"

definition startRecording_settle :: "StartEnv \<Rightarrow> string \<Rightarrow> RecordingInfo \<Rightarrow> Server \<Rightarrow> (error + RecordingInfo) \<times> Server" where
  "startRecording_settle env roomId info s =
     (case env_ffmpeg env of
        ffmpeg_throw e \<Rightarrow> (Inl e, s)
      | ffmpeg_error e \<Rightarrow>
          (Inl e, s\<lparr>activeRecorders := AList.delete (rec_id info) (activeRecorders s)\<rparr>)
      | ffmpeg_start \<Rightarrow>
          (Inr info,
           updateRoomRecordingStatus roomId True (Some (rec_id info)) (Some (rec_filePath info))
             (env_nowRoom env)
             (s\<lparr>activeRecorders := AList.update (rec_id info) (rec_id info) (activeRecorders s),
                recordings := AList.update (rec_id info) info (recordings s)\<rparr>)))"

text \<open>
  Ann and Bob, both in the room, ask for a recording at the same moment. Ann's call
  passes the check and starts FFmpeg; before FFmpeg has emitted \<^verbatim>\<open>start\<close>, Bob's call
  passes the check too. Then both calls finish.
\<close>

definition secondEnv :: StartEnv where
  "secondEnv = startEnv\<lparr>env_uuidv4 := ''rec-2'', env_timestamp := ''t2'', env_now := 101,
                       env_nowRoom := 104\<rparr>"

definition firstInfo :: RecordingInfo where
  "firstInfo = \<lparr>rec_id = ''rec-1'', rec_roomId = ''room-1'',
                rec_filePath = ''recordings/recording-lobby-t1.mp4'',
                rec_startTime = 100, rec_endTime = None, rec_status = st_recording,
                rec_participants = [''peer-a'', ''peer-b'']\<rparr>"

definition secondInfo :: RecordingInfo where
  "secondInfo = \<lparr>rec_id = ''rec-2'', rec_roomId = ''room-1'',
                 rec_filePath = ''recordings/recording-lobby-t2.mp4'',
                 rec_startTime = 101, rec_endTime = None, rec_status = st_recording,
                 rec_participants = [''peer-a'', ''peer-b'']\<rparr>"

definition firstRunning :: Server where
  "firstRunning = effects [ffmpeg_run ''rec-1''] twoJoined"

definition bothRunning :: Server where
  "bothRunning = effects [ffmpeg_run ''rec-2''] firstRunning"

definition overlapped :: Server where
  "overlapped =
     snd (startRecording_settle secondEnv ''room-1'' secondInfo
            (snd (startRecording_settle startEnv ''room-1'' firstInfo bothRunning)))"

text \<open>Afterwards the first session is stopped, and a third recording is asked for.\<close>

definition thirdEnv :: StartEnv where
  "thirdEnv = startEnv\<lparr>env_uuidv4 := ''rec-3'', env_timestamp := ''t3'', env_now := 300,
                      env_nowRoom := 303\<rparr>"

definition firstStopped :: Server where
  "firstStopped = snd (stopRecording 200 None ''rec-1'' overlapped)"

text \<open>One peer joins, and a recording of the room is started through the gateway.\<close>

definition recordingOps :: "server_op list" where
  "recordingOps =
     [do_handleJoin ''room-1'' (Inr ''router-1'') socketA ''lobby'' ''Ann'',
      do_handleStartRecording startEnv socketAJoined]"

section \<open>Lemmas about the state\<close>

declare leaveRoom.simps [simp del] closeRoom.simps [simp del]

lemma rooms_effects [simp]: "rooms (effects es s) = rooms s"
  and routers_effects [simp]: "routers (effects es s) = routers s"
  and recordings_effects [simp]: "recordings (effects es s) = recordings s"
  and activeRecorders_effects [simp]: "activeRecorders (effects es s) = activeRecorders s"
  and trace_effects [simp]: "trace (effects es s) = trace s @ es"
  by (simp_all add: effects_def)

lemma rooms_removeRouter [simp]: "rooms (removeRouter roomId s) = rooms s"
  by (simp add: removeRouter_def split: option.splits)

lemma closeRoom_empty:
  assumes "map_of (rooms s) roomId = Some room" and "peers room = []"
  shows "closeRoom roomId s =
           (True, (effects [rooms_delete roomId] (removeRouter roomId s))
                    \<lparr>rooms := AList.delete roomId (rooms s)\<rparr>)"
  using assms by (simp add: closeRoom.simps)

lemma leaveRoom_None:
  "getPeer roomId peerId s = None \<Longrightarrow> leaveRoom roomId peerId s = (False, s)"
  by (simp add: leaveRoom.simps getPeer_def split: option.splits)

text \<open>A successful \<^verbatim>\<open>leaveRoom\<close> without the recursion: the last peer's leave runs
  \<^verbatim>\<open>closeRoom\<close> on an empty room, whose loop has nothing to visit.\<close>

lemma leaveRoom_Some:
  assumes "map_of (rooms s) roomId = Some room" and "map_of (peers room) peerId = Some peer"
  shows "leaveRoom roomId peerId s =
           (True,
            if AList.delete peerId (peers room) = []
            then (effects [rooms_delete roomId] (removeRouter roomId (afterLeave roomId peerId room peer s)))
                   \<lparr>rooms := AList.delete roomId (rooms s)\<rparr>
            else afterLeave roomId peerId room peer s)"
proof -
  let ?s' = "afterLeave roomId peerId room peer s"
  have r: "map_of (rooms ?s') roomId = Some (room\<lparr>peers := AList.delete peerId (peers room)\<rparr>)"
    by (simp add: afterLeave_def AList.update_conv')
  show ?thesis
  proof (cases "AList.delete peerId (peers room) = []")
    case True
    have "closeRoom roomId ?s' =
           (True, (effects [rooms_delete roomId] (removeRouter roomId ?s'))
                    \<lparr>rooms := AList.delete roomId (rooms ?s')\<rparr>)"
      using r True by (intro closeRoom_empty) auto
    moreover have "AList.delete roomId (rooms ?s') = AList.delete roomId (rooms s)"
      by (simp add: afterLeave_def AList.delete_update_same)
    ultimately show ?thesis
      using assms True by (simp add: leaveRoom.simps Let_def afterLeave_def)
  next
    case False
    then show ?thesis
      using assms by (simp add: leaveRoom.simps Let_def afterLeave_def)
  qed
qed

lemma oneJoined_eq:
  "oneJoined =
     \<lparr>rooms = [(''room-1'',
         \<lparr>room_id = ''room-1'', room_name = ''lobby'',
          peers = [(''peer-a'', \<lparr>peer_id = ''peer-a'', peer_name = ''Ann'',
                                transports = [], producers = [], consumers = []\<rparr>)],
          router = ''router-1'',
          recording = \<lparr>isRecording = False, recordingId = None, startTime = None, filePath = None\<rparr>\<rparr>)],
      routers = [(''room-1'', ''router-1'')], recordings = [], activeRecorders = [],
      trace = [emit (socket_emit ''peer-a'') (joined ''peer-a'' ''room-1'' (Some ''router-1'') False),
               emit (socket_to ''peer-a'' ''room-1'') (peerJoined ''peer-a'' ''Ann''),
               emit (socket_emit ''peer-a'') (existingPeers [])]\<rparr>"
  by (simp add: oneJoined_def handleJoin_def getRoomByName_def createRoom_def createRouter_def
      joinRoom_def initial_def socketA_def getRouterRtpCapabilities_def emitTo_def effects_def
      getRoomPeersExcept_def Let_def)

section \<open>Leaving a room\<close>

text \<open>
  C10. If the room id names no registered room, or the peer id is not in that room's
  peer map, \<^verbatim>\<open>leaveRoom\<close> returns false and changes nothing: no room or peer is removed
  and nothing is closed (the trace of effects is part of the state). It returns true
  only when the peer was in the room's map, and then the peer is no longer there and
  the removal has taken place.
\<close>

theorem leaveRoom_false_or_removed:
  "(getPeer roomId peerId s = None \<longrightarrow> leaveRoom roomId peerId s = (False, s)) \<and>
   (fst (leaveRoom roomId peerId s) \<longrightarrow>
      getPeer roomId peerId s \<noteq> None \<and>
      getPeer roomId peerId (snd (leaveRoom roomId peerId s)) = None \<and>
      peers_delete roomId peerId \<in> set (trace (snd (leaveRoom roomId peerId s))))"
proof (cases "getPeer roomId peerId s")
  case None
  then show ?thesis by (simp add: leaveRoom_None)
next
  case (Some peer)
  then obtain room where r: "map_of (rooms s) roomId = Some room"
    and p: "map_of (peers room) peerId = Some peer"
    by (auto simp: getPeer_def split: option.splits)
  show ?thesis
    using Some
    by (simp add: leaveRoom_Some [OF r p] getPeer_def afterLeave_def AList.update_conv'
        AList.delete_conv' removeRouter_def split: option.splits)
qed

theorem leaveRoom_false_or_removed_witness:
  "getPeer ''room-1'' ''peer-b'' oneJoined = None \<and>
   leaveRoom ''room-1'' ''peer-b'' oneJoined = (False, oneJoined) \<and>
   getPeer ''room-9'' ''peer-a'' oneJoined = None \<and>
   leaveRoom ''room-9'' ''peer-a'' oneJoined = (False, oneJoined) \<and>
   fst (leaveRoom ''room-1'' ''peer-a'' oneJoined) \<and>
   getPeer ''room-1'' ''peer-a'' oneJoined \<noteq> None \<and>
   getPeer ''room-1'' ''peer-a'' (snd (leaveRoom ''room-1'' ''peer-a'' oneJoined)) = None"
proof -
  have a: "getPeer ''room-1'' ''peer-b'' oneJoined = None"
    and b: "getPeer ''room-9'' ''peer-a'' oneJoined = None"
    by (simp_all add: oneJoined_eq getPeer_def)
  have c: "fst (leaveRoom ''room-1'' ''peer-a'' oneJoined)"
    by (simp add: oneJoined_eq leaveRoom.simps Let_def)
  show ?thesis
    using a b c
      leaveRoom_false_or_removed [of "''room-1''" "''peer-b''" oneJoined]
      leaveRoom_false_or_removed [of "''room-9''" "''peer-a''" oneJoined]
      leaveRoom_false_or_removed [of "''room-1''" "''peer-a''" oneJoined]
    by blast
qed

lemma producing_room:
  "getRoom ''room-1'' producing =
     Some \<lparr>room_id = ''room-1'', room_name = ''lobby'',
           peers = [(''peer-a'',
                     \<lparr>peer_id = ''peer-a'', peer_name = ''Ann'',
                      transports = [(''t-1'', sendTransport1), (''t-3'', recvTransport1)],
                      producers = [(''p-1'', videoProducer)], consumers = []\<rparr>)],
           router = ''router-1'',
           recording = \<lparr>isRecording = False, recordingId = None, startTime = None,
                        filePath = None\<rparr>\<rparr>"
  by code_simp

text \<open>
  C7. When a peer leaves (\<^verbatim>\<open>leaveRoom\<close> finds the room and the peer, and returns true),
  the call closes every transport, every producer and every consumer in the peer's
  maps, and only then deletes the peer from the room's peer map: the effects the call
  adds to the trace are these closes, then the deletion, then whatever tears the room
  down.
\<close>

theorem leaveRoom_closes_before_removal:
  assumes "getRoom roomId s = Some room" and "map_of (peers room) peerId = Some peer"
  shows "\<exists>after.
           leaveRoom roomId peerId s = (True, snd (leaveRoom roomId peerId s)) \<and>
           trace (snd (leaveRoom roomId peerId s))
             = trace s @ closePeer peer @ [peers_delete roomId peerId] @ after \<and>
           peers_delete roomId peerId \<notin> set (closePeer peer) \<and>
           (\<forall>t \<in> snd ` set (transports peer). transport_close (transport_id t) \<in> set (closePeer peer)) \<and>
           (\<forall>p \<in> snd ` set (producers peer). producer_close (producer_id p) \<in> set (closePeer peer)) \<and>
           (\<forall>c \<in> snd ` set (consumers peer). consumer_close (consumer_id c) \<in> set (closePeer peer))"
proof -
  have r: "map_of (rooms s) roomId = Some room"
    using assms(1) by (simp add: getRoom_def)
  have m: "peers_delete roomId peerId \<notin> set (closePeer peer)"
    by (auto simp: closePeer_def)
  have t: "\<forall>t \<in> snd ` set (transports peer). transport_close (transport_id t) \<in> set (closePeer peer)"
    and p: "\<forall>p \<in> snd ` set (producers peer). producer_close (producer_id p) \<in> set (closePeer peer)"
    and c: "\<forall>c \<in> snd ` set (consumers peer). consumer_close (consumer_id c) \<in> set (closePeer peer)"
    by (auto simp: closePeer_def)
  have "\<exists>after. trace (snd (leaveRoom roomId peerId s))
             = trace s @ closePeer peer @ [peers_delete roomId peerId] @ after"
    by (simp add: leaveRoom_Some [OF r assms(2)] afterLeave_def removeRouter_def split: option.splits)
  moreover have "leaveRoom roomId peerId s = (True, snd (leaveRoom roomId peerId s))"
    by (simp add: leaveRoom_Some [OF r assms(2)])
  ultimately show ?thesis
    using m t p c by blast
qed

theorem leaveRoom_closes_before_removal_witness:
  "\<exists>after.
     fst (leaveRoom ''room-1'' ''peer-a'' producing) \<and>
     trace (snd (leaveRoom ''room-1'' ''peer-a'' producing))
       = trace producing
         @ [transport_close ''t-1'', transport_close ''t-3'', producer_close ''p-1'']
         @ [peers_delete ''room-1'' ''peer-a''] @ after"
proof -
  let ?peer = "\<lparr>peer_id = ''peer-a'', peer_name = ''Ann'',
                 transports = [(''t-1'', sendTransport1), (''t-3'', recvTransport1)],
                 producers = [(''p-1'', videoProducer)], consumers = []\<rparr>"
  have c: "closePeer ?peer = [transport_close ''t-1'', transport_close ''t-3'', producer_close ''p-1'']"
    by (simp add: closePeer_def sendTransport1_def recvTransport1_def videoProducer_def)
  obtain after where
    a: "leaveRoom ''room-1'' ''peer-a'' producing = (True, snd (leaveRoom ''room-1'' ''peer-a'' producing))"
    and b: "trace (snd (leaveRoom ''room-1'' ''peer-a'' producing))
             = trace producing @ closePeer ?peer @ [peers_delete ''room-1'' ''peer-a''] @ after"
    using leaveRoom_closes_before_removal [OF producing_room, of "''peer-a''" ?peer] by auto
  have "fst (leaveRoom ''room-1'' ''peer-a'' producing)"
    using a by (metis fst_conv)
  then show ?thesis
    using b c by auto
qed

section \<open>Stopping a recording\<close>

lemma afterStop_recording:
  "getRecording ''rec-1'' afterStop =
     Some \<lparr>rec_id = ''rec-1'', rec_roomId = ''room-1'',
           rec_filePath = ''recordings/recording-lobby-t1.mp4'',
           rec_startTime = 100, rec_endTime = Some 200,
           rec_status = st_stopped, rec_participants = [''peer-a'']\<rparr>"
  by code_simp

text \<open>
  C6. For a stored recording whose status is not \<^verbatim>\<open>recording\<close>, \<^verbatim>\<open>stopRecording\<close> on
  its id throws \<^verbatim>\<open>Recording <id> is not active\<close> and the whole state is as before: the
  stored recording with its status, end time and file path, and every room's
  recording state.
\<close>

theorem stopRecording_not_active:
  assumes "getRecording recId s = Some r" and "rec_status r \<noteq> st_recording"
  shows "stopRecording now kill recId s = (Inl (Error (''Recording '' @ recId @ '' is not active'')), s)"
  using assms by (simp add: stopRecording_def getRecording_def)

theorem stopRecording_not_active_witness:
  "getRecording ''rec-1'' afterStop \<noteq> None \<and>
   rec_status (the (getRecording ''rec-1'' afterStop)) = st_stopped \<and>
   stopRecording 300 None ''rec-1'' afterStop =
     (Inl (Error ''Recording rec-1 is not active''), afterStop)"
  using stopRecording_not_active [of "''rec-1''" afterStop _ 300 None, OF afterStop_recording]
  by (simp add: afterStop_recording)

section \<open>Joining\<close>

lemma trace_emitTo [simp]: "trace (emitTo t m s) = trace s @ [emit t m]"
  and rooms_emitTo [simp]: "rooms (emitTo t m s) = rooms s"
  and recordings_emitTo [simp]: "recordings (emitTo t m s) = recordings s"
  and routers_emitTo [simp]: "routers (emitTo t m s) = routers s"
  by (simp_all add: emitTo_def)

lemma getPeer_emitTo [simp]: "getPeer roomId peerId (emitTo t m s) = getPeer roomId peerId s"
  by (simp add: getPeer_def)

lemma createRoom_cases:
  "(\<exists>e. createRoom uuid roomName worker s = (Inl e, s)) \<or>
   (\<exists>room s1. createRoom uuid roomName worker s = (Inr room, s1) \<and> room_id room = uuid \<and>
       peers room = [] \<and> map_of (rooms s1) uuid = Some room \<and> trace s1 = trace s)"
  by (auto simp: createRoom_def createRouter_def AList.update_conv' Let_def split: option.splits sum.splits)

lemma joinRoom_cases:
  "(\<exists>e. joinRoom roomId peerId peerName s = (Inl e, s)) \<or>
   (\<exists>peer s1. joinRoom roomId peerId peerName s = (Inr peer, s1) \<and>
       getPeer roomId peerId s = None \<and> getPeer roomId peerId s1 = Some peer \<and>
       peer_id peer = peerId \<and> peer_name peer = peerName \<and> trace s1 = trace s)"
  by (auto simp: joinRoom_def getPeer_def AList.update_conv' Let_def split: option.splits)

text \<open>
  C9. \<^verbatim>\<open>handleJoin\<close> either fails, and then it only emits \<^verbatim>\<open>error\<close> to the requesting
  socket, or it succeeds: the peer is in the room, the socket is bound to the room, and
  the messages the call emits are, in this order, \<^verbatim>\<open>joined\<close> with the joining peer's
  own id to the joining socket, \<^verbatim>\<open>peerJoined\<close> naming that peer to the other sockets
  of the room, and \<^verbatim>\<open>existingPeers\<close> to the joining socket. So on every successful
  join \<^verbatim>\<open>joined\<close> is emitted before the \<^verbatim>\<open>peerJoined\<close> broadcast.
\<close>

theorem handleJoin_joined_before_peerJoined:
  "(\<exists>m. handleJoin uuid worker socket roomName peerName s
          = (socket, emitTo (socket_emit (data_peerId socket)) (error_msg m) s)) \<or>
   (\<exists>roomId caps isRec others.
      getPeer roomId (data_peerId socket) (snd (handleJoin uuid worker socket roomName peerName s)) \<noteq> None \<and>
      data_roomId (fst (handleJoin uuid worker socket roomName peerName s)) = Some roomId \<and>
      trace (snd (handleJoin uuid worker socket roomName peerName s))
        = trace s @ [emit (socket_emit (data_peerId socket)) (joined (data_peerId socket) roomId caps isRec),
                     emit (socket_to (data_peerId socket) roomId) (peerJoined (data_peerId socket) peerName),
                     emit (socket_emit (data_peerId socket)) (existingPeers others)])"
proof -
  let ?p = "data_peerId socket"
  obtain r s1 where c: "(case getRoomByName roomName s of
                 Some room \<Rightarrow> (Inr room, s)
               | None \<Rightarrow> createRoom uuid roomName worker s) = (r, s1)"
    by fastforce
  have s1: "(\<exists>e. r = Inl e \<and> s1 = s) \<or> (\<exists>room. r = Inr room \<and> trace s1 = trace s)"
    using c createRoom_cases [of uuid roomName worker s]
    by (auto split: option.splits)
  show ?thesis
  proof (cases r)
    case (Inl e)
    then have "s1 = s" using s1 by auto
    then show ?thesis
      using c Inl by (cases e) (auto simp: handleJoin_def emitError_def Let_def)
  next
    case (Inr room)
    then have t1: "trace s1 = trace s" using s1 by auto
    show ?thesis
      using joinRoom_cases [of "room_id room" ?p peerName s1]
    proof (elim disjE exE conjE)
      fix e assume j: "joinRoom (room_id room) ?p peerName s1 = (Inl e, s1)"
      then have "s1 = s"
        using c Inr by (auto simp: joinRoom_def createRoom_def createRouter_def AList.update_conv' Let_def
            split: option.splits sum.splits if_splits)
      then show ?thesis
        using c Inr j by (cases e) (auto simp: handleJoin_def emitError_def Let_def)
    next
      fix peer s2
      assume j: "joinRoom (room_id room) ?p peerName s1 = (Inr peer, s2)"
        and g: "getPeer (room_id room) ?p s2 = Some peer" and t2: "trace s2 = trace s1"
      show ?thesis
        using c Inr j g t1 t2
        by (intro disjI2) (simp add: handleJoin_def Let_def)
    qed
  qed
qed

theorem handleJoin_joined_before_peerJoined_witness:
  "trace (snd (handleJoin ''room-2'' (Inr ''router-2'') socketB ''lobby'' ''Bob'' oneJoined))
     = trace oneJoined
       @ [emit (socket_emit ''peer-b'') (joined ''peer-b'' ''room-1'' (Some ''router-1'') False),
          emit (socket_to ''peer-b'' ''room-1'') (peerJoined ''peer-b'' ''Bob''),
          emit (socket_emit ''peer-b'') (existingPeers [(''peer-a'', ''Ann'')])]"
proof -
  have e: "trace (snd (handleJoin ''room-2'' (Inr ''router-2'') socketB ''lobby'' ''Bob'' oneJoined))
     = trace oneJoined
       @ [emit (socket_emit ''peer-b'') (joined ''peer-b'' ''room-1'' (Some ''router-1'') False),
          emit (socket_to ''peer-b'' ''room-1'') (peerJoined ''peer-b'' ''Bob''),
          emit (socket_emit ''peer-b'') (existingPeers [(''peer-a'', ''Ann'')])]"
    by code_simp
  show ?thesis
    using handleJoin_joined_before_peerJoined
            [of "''room-2''" "Inr ''router-2''" socketB "''lobby''" "''Bob''" oneJoined] e
    by simp
qed

section \<open>Starting a recording that fails\<close>

text \<open>
  C5. The session of a failed start is not kept. With a room that exists and is not
  being recorded, let \<^verbatim>\<open>createPlainTransport\<close> throw, or let FFmpeg emit \<^verbatim>\<open>error\<close>
  instead of \<^verbatim>\<open>start\<close>: \<^verbatim>\<open>startRecording\<close> throws the error, and the gateway emits it to
  the requester, but \<^verbatim>\<open>recordings\<close> holds no entry afterwards, so neither
  \<^verbatim>\<open>getRecording\<close> nor \<^verbatim>\<open>getAllRecordings\<close> shows a session with status \<^verbatim>\<open>failed\<close>.
\<close>

theorem startRecording_failure_not_retained:
  "startRecording noPortEnv ''room-1'' oneJoined = (Inl (Error ''no more available ports''), oneJoined) \<and>
   getRecording ''rec-1'' (snd (startRecording noPortEnv ''room-1'' oneJoined)) = None \<and>
   getAllRecordings (snd (startRecording noPortEnv ''room-1'' oneJoined)) = [] \<and>
   fst (startRecording ffmpegFailEnv ''room-1'' oneJoined) = Inl (Error ''ffmpeg exited with code 1'') \<and>
   getRecording ''rec-1'' (snd (startRecording ffmpegFailEnv ''room-1'' oneJoined)) = None \<and>
   getAllRecordings (snd (startRecording ffmpegFailEnv ''room-1'' oneJoined)) = [] \<and>
   trace (handleStartRecording noPortEnv socketAJoined oneJoined)
     = trace oneJoined @ [emit (socket_emit ''peer-a'') (error_msg ''no more available ports'')]"
  by code_simp

section \<open>Transports and consumers\<close>

lemma getPeer_updatePeer:
  "getPeer roomId peerId s = Some peer \<Longrightarrow>
   getPeer roomId peerId (updatePeer roomId peerId f s) = Some (f peer)"
  by (auto simp: getPeer_def updatePeer_def AList.update_conv' split: option.splits)

lemma trace_updatePeer [simp]: "trace (updatePeer roomId peerId f s) = trace s"
  by (simp add: updatePeer_def split: option.splits)

lemma socketAJoined_roomId: "data_roomId socketAJoined = Some ''room-1''"
  and socketAJoined_peerId: "data_peerId socketAJoined = ''peer-a''"
  by code_simp+

lemma producing_peer: "getPeer ''room-1'' ''peer-a'' producing = Some peerAProducing"
  by code_simp

text \<open>
  C4, as the code has it. \<^verbatim>\<open>handleCreateTransport\<close> keeps no limit per direction. When
  the socket's room and the named peer exist and the engine returns a transport, the
  transport is stored in the peer's transport map under its id, whatever the requested
  direction is and whatever transports the peer already holds, and
  \<^verbatim>\<open>transportCreated\<close> is emitted to the requester. The request is rejected, with
  \<^verbatim>\<open>error\<close> emitted to the requester and nothing else changed, when the socket has no
  room, the peer is not in the room, or the engine throws.
\<close>

theorem handleCreateTransport_no_direction_check:
  "(data_roomId socket = Some roomId \<and> getPeer roomId peerId s = Some peer \<longrightarrow>
      getPeer roomId peerId (handleCreateTransport socket peerId direction (Inr t) s)
        = Some (peer\<lparr>transports := AList.update (transport_id t) t (transports peer)\<rparr>) \<and>
      trace (handleCreateTransport socket peerId direction (Inr t) s)
        = trace s @ [emit (socket_emit (data_peerId socket)) (transportCreated (transport_id t))]) \<and>
   (data_roomId socket = None \<or> (\<exists>r. data_roomId socket = Some r \<and> getPeer r peerId s = None)
      \<or> (\<exists>e. engine = Inl e) \<longrightarrow>
      (\<exists>m. handleCreateTransport socket peerId direction engine s
              = emitTo (socket_emit (data_peerId socket)) (error_msg m) s))"
proof (intro conjI impI)
  assume a: "data_roomId socket = Some roomId \<and> getPeer roomId peerId s = Some peer"
  then have r: "getRoom roomId s \<noteq> None"
    by (auto simp: getPeer_def getRoom_def split: option.splits)
  show "getPeer roomId peerId (handleCreateTransport socket peerId direction (Inr t) s)
        = Some (peer\<lparr>transports := AList.update (transport_id t) t (transports peer)\<rparr>)"
    using a r by (auto simp: handleCreateTransport_def getPeer_updatePeer)
  show "trace (handleCreateTransport socket peerId direction (Inr t) s)
        = trace s @ [emit (socket_emit (data_peerId socket)) (transportCreated (transport_id t))]"
    using a r by (auto simp: handleCreateTransport_def)
next
  assume "data_roomId socket = None \<or> (\<exists>r. data_roomId socket = Some r \<and> getPeer r peerId s = None)
      \<or> (\<exists>e. engine = Inl e)"
  then show "\<exists>m. handleCreateTransport socket peerId direction engine s
              = emitTo (socket_emit (data_peerId socket)) (error_msg m) s"
    by (auto simp: handleCreateTransport_def emitError_def split: option.splits error.splits sum.splits)
qed

theorem handleCreateTransport_no_direction_check_witness:
  "getPeer ''room-1'' ''peer-a''
       (handleCreateTransport socketAJoined ''peer-a'' ''recv''
          (Inr \<lparr>transport_id = ''t-4'', appData_direction = None\<rparr>) producing)
     = Some (peerAProducing\<lparr>transports :=
               [(''t-1'', sendTransport1), (''t-3'', recvTransport1),
                (''t-4'', \<lparr>transport_id = ''t-4'', appData_direction = None\<rparr>)]\<rparr>) \<and>
   (\<exists>m. handleCreateTransport socketAJoined ''peer-z'' ''recv''
            (Inr \<lparr>transport_id = ''t-4'', appData_direction = None\<rparr>) producing
          = emitTo (socket_emit ''peer-a'') (error_msg m) producing)"
proof -
  have z: "getPeer ''room-1'' ''peer-z'' producing = None"
    by code_simp
  show ?thesis
    using handleCreateTransport_no_direction_check
            [of socketAJoined "''room-1''" "''peer-a''" producing peerAProducing "''recv''"
                "\<lparr>transport_id = ''t-4'', appData_direction = None\<rparr>"]
          handleCreateTransport_no_direction_check
            [of socketAJoined "''room-1''" "''peer-z''" producing _ "''recv''" _
                "Inr \<lparr>transport_id = ''t-4'', appData_direction = None\<rparr>"]
          socketAJoined_roomId socketAJoined_peerId producing_peer z
    by (simp add: peerAProducing_def)
qed

text \<open>The claim as the specification states it fails: a second request for a send
  transport is answered with \<^verbatim>\<open>transportCreated\<close> and the peer holds two of them.\<close>

theorem second_send_transport_counterexample:
  "map_option transports (getPeer ''room-1'' ''peer-a'' oneSend) = Some [(''t-1'', sendTransport1)] \<and>
   map_option transports (getPeer ''room-1'' ''peer-a'' twoSend)
     = Some [(''t-1'', sendTransport1), (''t-2'', sendTransport2)] \<and>
   trace twoSend = trace oneSend @ [emit (socket_emit ''peer-a'') (transportCreated ''t-2'')]"
  by code_simp

lemma own_producer_found:
  assumes "getPeer roomId peerId s = Some peer" and "map_of (producers peer) producerId \<noteq> None"
  shows "\<exists>producerPeer producer.
           find (\<lambda>p. map_of (producers p) producerId \<noteq> None) (getRoomPeers roomId s) = Some producerPeer \<and>
           map_of (producers producerPeer) producerId = Some producer"
proof -
  from assms(1) obtain room where r: "map_of (rooms s) roomId = Some room"
    and p: "map_of (peers room) peerId = Some peer"
    by (auto simp: getPeer_def split: option.splits)
  from p have "peer \<in> set (getRoomPeers roomId s)"
    using r by (force simp: getRoomPeers_def dest: map_of_SomeD)
  with assms(2) have "find (\<lambda>p. map_of (producers p) producerId \<noteq> None) (getRoomPeers roomId s) \<noteq> None"
    by (auto simp: find_None_iff)
  then obtain producerPeer where
    f: "find (\<lambda>p. map_of (producers p) producerId \<noteq> None) (getRoomPeers roomId s) = Some producerPeer"
    by auto
  then have "map_of (producers producerPeer) producerId \<noteq> None"
    by (auto simp: find_Some_iff)
  with f show ?thesis by auto
qed

lemma handleConsume_own_producer_cases:
  assumes "data_roomId socket = Some roomId"
    and "getPeer roomId peerId s = Some peer"
    and "map_of (producers peer) producerId \<noteq> None"
  shows "\<exists>m producer.
           handleConsume socket peerId producerId canConsume engine s =
             (if \<not> canConsume then emitTo (socket_emit (data_peerId socket)) (error_msg ''Cannot consume'') s
              else if find (\<lambda>t. appData_direction t = Some ''recv'') (map snd (transports peer)) = None
              then emitTo (socket_emit (data_peerId socket)) (error_msg ''Receive transport not found'') s
              else case engine of
                     Inl e \<Rightarrow> emitTo (socket_emit (data_peerId socket)) (error_msg m) s
                   | Inr consumer \<Rightarrow>
                       emitTo (socket_emit (data_peerId socket))
                         (consumed (consumer_id consumer) producer
                            (consumer_kind consumer) (consumer_rtpParameters consumer))
                         (updatePeer roomId peerId
                            (\<lambda>p. p\<lparr>consumers := AList.update (consumer_id consumer) consumer (consumers p)\<rparr>)
                            s))"
proof -
  from assms(2) obtain room where r: "getRoom roomId s = Some room"
    by (auto simp: getPeer_def getRoom_def split: option.splits)
  obtain producerPeer producer where
    f: "find (\<lambda>p. map_of (producers p) producerId \<noteq> None) (getRoomPeers roomId s) = Some producerPeer"
    and g: "map_of (producers producerPeer) producerId = Some producer"
    using own_producer_found [OF assms(2,3)] by auto
  show ?thesis
    using assms(1,2) r f g
    by (cases engine; cases "projl engine")
       (auto simp: handleConsume_def emitError_def split: option.splits)
qed

text \<open>
  What stores a transport. Every step of the server other than a successful
  \<^verbatim>\<open>createTransport\<close> leaves the transports of every peer as they were, and a
  \<^verbatim>\<open>createTransport\<close> stores the object \<^verbatim>\<open>createWebRtcTransport\<close> returns, which has no
  \<^verbatim>\<open>appData\<close>. So no transport the server ever stores has an \<^verbatim>\<open>appData.direction\<close>.
\<close>

lemma sameTransports_refl [simp]: "sameTransports s s"
  by (simp add: sameTransports_def)

lemma sameTransports_trans: "sameTransports s s1 \<Longrightarrow> sameTransports s1 s2 \<Longrightarrow> sameTransports s s2"
  unfolding sameTransports_def by metis

lemma sameTransports_rooms: "rooms s' = rooms s \<Longrightarrow> sameTransports s s'"
  by (simp add: sameTransports_def transportsOf_def getPeer_def)

lemma plainTransports_same:
  assumes "plainTransports s" and "sameTransports s s'"
  shows "plainTransports s'"
  unfolding plainTransports_def
proof (intro allI impI)
  fix roomId peerId ts t
  assume a: "transportsOf roomId peerId s' = Some ts" and t: "t \<in> set ts"
  from assms(2) have "transportsOf roomId peerId s' = None \<or>
                      transportsOf roomId peerId s' = Some [] \<or>
                      transportsOf roomId peerId s' = transportsOf roomId peerId s"
    by (simp add: sameTransports_def)
  with a t have "transportsOf roomId peerId s = Some ts" by auto
  with assms(1) t show "appData_direction (snd t) = None"
    unfolding plainTransports_def by blast
qed

lemma same_effects [simp]: "sameTransports s (effects es s)"
  by (simp add: sameTransports_rooms)

lemma same_emitTo [simp]: "sameTransports s (emitTo t m s)"
  by (simp add: sameTransports_rooms emitTo_def)

lemma same_emitError [simp]: "sameTransports s (emitError socket e s)"
  by (cases e) (simp add: emitError_def)

lemma same_removeRouter [simp]: "sameTransports s (removeRouter roomId s)"
  by (simp add: sameTransports_rooms)

lemma same_joinRoom [simp]: "sameTransports s (snd (joinRoom roomId peerId peerName s))"
  by (auto simp: sameTransports_def transportsOf_def getPeer_def joinRoom_def AList.update_conv' Let_def
      split: option.splits)

lemma same_leaveRoom [simp]: "sameTransports s (snd (leaveRoom roomId peerId s))"
proof (cases "getPeer roomId peerId s")
  case None
  then show ?thesis by (simp add: leaveRoom_None)
next
  case (Some peer)
  then obtain room where r: "map_of (rooms s) roomId = Some room"
    and p: "map_of (peers room) peerId = Some peer"
    by (auto simp: getPeer_def split: option.splits)
  show ?thesis
    by (auto simp: leaveRoom_Some [OF r p] sameTransports_def transportsOf_def getPeer_def afterLeave_def
        AList.update_conv' AList.delete_conv' r split: option.splits)
qed

lemma same_closeRoomPeers [simp]: "sameTransports s (closeRoomPeers roomId ps s)"
proof (induction ps arbitrary: s)
  case Nil
  then show ?case by simp
next
  case (Cons p ps)
  show ?case
    using sameTransports_trans [OF same_leaveRoom [of s roomId p] Cons [of "snd (leaveRoom roomId p s)"]]
    by simp
qed

lemma same_closeRoom [simp]: "sameTransports s (snd (closeRoom roomId s))"
proof (cases "map_of (rooms s) roomId")
  case None
  then show ?thesis by (simp add: closeRoom.simps)
next
  case (Some room)
  let ?s1 = "closeRoomPeers roomId (map (\<lambda>p. peer_id (snd p)) (peers room)) s"
  let ?s2 = "removeRouter roomId ?s1"
  have "sameTransports s ?s2"
    using sameTransports_trans [OF same_closeRoomPeers same_removeRouter] .
  moreover have "sameTransports ?s2 ((effects [rooms_delete roomId] ?s2)\<lparr>rooms := AList.delete roomId (rooms ?s2)\<rparr>)"
    by (auto simp: sameTransports_def transportsOf_def getPeer_def AList.delete_conv')
  ultimately show ?thesis
    using Some by (simp add: closeRoom.simps Let_def sameTransports_trans)
qed

lemma same_createRoom [simp]: "sameTransports s (snd (createRoom uuid roomName worker s))"
  by (auto simp: sameTransports_def transportsOf_def getPeer_def createRoom_def createRouter_def
      AList.update_conv' Let_def split: option.splits sum.splits)

lemma same_updateRoomRecordingStatus [simp]:
  "sameTransports s (updateRoomRecordingStatus roomId isRec recId path now s)"
  by (auto simp: sameTransports_def transportsOf_def getPeer_def updateRoomRecordingStatus_def
      AList.update_conv' Let_def split: option.splits)

lemma same_after:
  "sameTransports s s' \<Longrightarrow> sameTransports s (emitTo t m s')"
  "sameTransports s s' \<Longrightarrow> sameTransports s (emitError socket e s')"
  "sameTransports s s' \<Longrightarrow> sameTransports s (effects es s')"
  "sameTransports s s' \<Longrightarrow> sameTransports s (updateRoomRecordingStatus roomId isRec recId path now s')"
  using sameTransports_trans [OF _ same_emitTo] sameTransports_trans [OF _ same_emitError]
    sameTransports_trans [OF _ same_effects] sameTransports_trans [OF _ same_updateRoomRecordingStatus]
  by blast+

lemma same_updatePeer:
  assumes "\<And>p. transports (f p) = transports p"
  shows "sameTransports s (updatePeer roomId peerId f s)"
  using assms
  by (auto simp: sameTransports_def transportsOf_def getPeer_def updatePeer_def AList.update_conv'
      split: option.splits)

lemma same_updateRoomRecordingStatus_after:
  "rooms s1 = rooms s \<Longrightarrow> sameTransports s (updateRoomRecordingStatus roomId isRec recId path now s1)"
  using sameTransports_trans [OF sameTransports_rooms same_updateRoomRecordingStatus] by blast

lemma same_startRecording [simp]: "sameTransports s (snd (startRecording env roomId s))"
  by (simp add: startRecording_def startFFmpegRecording_def Let_def effects_def
      same_updateRoomRecordingStatus_after sameTransports_rooms
      split: option.splits sum.splits ffmpeg_outcome.splits prod.splits)

lemma same_stopRecording [simp]: "sameTransports s (snd (stopRecording now kill recId s))"
  by (simp add: stopRecording_def Let_def effects_def
      same_updateRoomRecordingStatus_after sameTransports_rooms
      split: option.splits sum.splits prod.splits)

lemma same_deleteRecording [simp]:
  "sameTransports s (snd (deleteRecording now kill fileExists recId s))"
proof (cases "map_of (recordings s) recId")
  case None
  then show ?thesis by (simp add: deleteRecording_def)
next
  case (Some r)
  let ?s1 = "if rec_status r = st_recording then snd (stopRecording now kill recId s) else s"
  let ?s2 = "if fileExists then effects [file_unlink (rec_filePath r)] ?s1 else ?s1"
  have 1: "sameTransports s ?s1" by simp
  have 2: "sameTransports ?s1 ?s2" by simp
  have 3: "sameTransports ?s2 (?s2\<lparr>recordings := AList.delete recId (recordings ?s2)\<rparr>)"
    by (rule sameTransports_rooms) simp
  show ?thesis
    using Some sameTransports_trans [OF sameTransports_trans [OF 1 2] 3]
    by (simp add: deleteRecording_def Let_def)
qed

lemma same_onFfmpegEnd [simp]: "sameTransports s (onFfmpegEnd recId s)"
  by (rule sameTransports_rooms) (simp add: onFfmpegEnd_def Let_def split: option.splits)

lemma same_onFfmpegError [simp]: "sameTransports s (onFfmpegError recId s)"
  by (rule sameTransports_rooms) (simp add: onFfmpegError_def)

lemma same_handleJoin [simp]:
  "sameTransports s (snd (handleJoin uuid worker socket roomName peerName s))"
proof -
  have c: "sameTransports s (snd (createRoom uuid roomName worker s))" by simp
  have j: "sameTransports s1 (snd (joinRoom r p n s1))" for s1 r p n by simp
  show ?thesis
  proof (cases "getRoomByName roomName s")
    case None
    show ?thesis
    proof (cases "createRoom uuid roomName worker s")
      case (Pair a s1)
      with c have s1: "sameTransports s s1" by simp
      show ?thesis
      proof (cases a)
        case (Inl e)
        then show ?thesis using None Pair s1 by (simp add: handleJoin_def same_after)
      next
        case (Inr room)
        obtain b s2 where jr: "joinRoom (room_id room) (data_peerId socket) peerName s1 = (b, s2)"
          by (cases "joinRoom (room_id room) (data_peerId socket) peerName s1")
        with j [of s1 "room_id room" "data_peerId socket" peerName] have "sameTransports s1 s2" by simp
        with s1 have "sameTransports s s2" by (rule sameTransports_trans)
        then show ?thesis
          using None Pair Inr jr
          by (cases b) (simp_all add: handleJoin_def Let_def same_after)
      qed
    qed
  next
    case (Some room)
    obtain b s2 where jr: "joinRoom (room_id room) (data_peerId socket) peerName s = (b, s2)"
      by (cases "joinRoom (room_id room) (data_peerId socket) peerName s")
    with j [of s "room_id room" "data_peerId socket" peerName] have "sameTransports s s2" by simp
    then show ?thesis
      using Some jr by (cases b) (simp_all add: handleJoin_def Let_def same_after)
  qed
qed

lemma same_handleDisconnect [simp]: "sameTransports s (handleDisconnect socket s)"
  by (simp add: handleDisconnect_def same_after split: option.splits)

lemma same_handleProduce [simp]:
  "sameTransports s (handleProduce socket peerId transportId kind engine s)"
  by (simp add: handleProduce_def same_after same_updatePeer split: option.splits sum.splits)

lemma same_handleConsume [simp]:
  "sameTransports s (handleConsume socket peerId producerId canConsume engine s)"
  by (simp add: handleConsume_def same_after same_updatePeer split: option.splits sum.splits)

lemma same_handleStartRecording [simp]: "sameTransports s (handleStartRecording env socket s)"
proof (cases "data_roomId socket")
  case None
  then show ?thesis by (simp add: handleStartRecording_def)
next
  case (Some roomId)
  obtain a s1 where r: "startRecording env roomId s = (a, s1)"
    by (cases "startRecording env roomId s")
  with same_startRecording [of s env roomId] have "sameTransports s s1" by simp
  then show ?thesis
    using Some r by (cases a) (simp_all add: handleStartRecording_def same_after)
qed

lemma same_handleStopRecording [simp]:
  "sameTransports s (handleStopRecording now kill socket recId s)"
proof -
  obtain a s1 where r: "stopRecording now kill recId s = (a, s1)"
    by (cases "stopRecording now kill recId s")
  with same_stopRecording [of s now kill recId] have "sameTransports s s1" by simp
  then show ?thesis
    using r by (cases a) (simp_all add: handleStopRecording_def same_after)
qed

lemma set_alist_update: "set (AList.update k v al) \<subseteq> insert (k, v) (set al)"
  by (induction al) auto

lemma plainTransportsD:
  "plainTransports s \<Longrightarrow> transportsOf roomId peerId s = Some ts \<Longrightarrow> t \<in> set ts \<Longrightarrow>
   appData_direction (snd t) = None"
  unfolding plainTransports_def by blast

lemma plain_handleCreateTransport:
  assumes "plainTransports s"
  shows "plainTransports
           (handleCreateTransport socket peerId direction (createWebRtcTransport direction engine) s)"
proof (cases "\<exists>roomId room peer transportId.
                data_roomId socket = Some roomId \<and> getRoom roomId s = Some room \<and>
                getPeer roomId peerId s = Some peer \<and> engine = Inr transportId")
  case False
  then have "sameTransports s
               (handleCreateTransport socket peerId direction (createWebRtcTransport direction engine) s)"
    by (auto simp: handleCreateTransport_def createWebRtcTransport_def
        split: option.splits sum.splits)
  with assms show ?thesis by (rule plainTransports_same)
next
  case True
  then obtain roomId room peer transportId where
    r: "data_roomId socket = Some roomId" "getRoom roomId s = Some room"
    and p: "getPeer roomId peerId s = Some peer" and e: "engine = Inr transportId"
    by auto
  let ?t = "\<lparr>transport_id = transportId, appData_direction = None\<rparr>"
  let ?s' = "updatePeer roomId peerId (\<lambda>p. p\<lparr>transports := AList.update transportId ?t (transports p)\<rparr>) s"
  have h: "handleCreateTransport socket peerId direction (createWebRtcTransport direction engine) s
           = emitTo (socket_emit (data_peerId socket)) (transportCreated transportId) ?s'"
    using r p e by (simp add: handleCreateTransport_def createWebRtcTransport_def)
  have t: "transportsOf k q ?s' =
             (if k = roomId \<and> q = peerId then Some (AList.update transportId ?t (transports peer))
              else transportsOf k q s)" for k q
    using p
    by (auto simp: transportsOf_def getPeer_def updatePeer_def AList.update_conv' split: option.splits)
  have "plainTransports ?s'"
    unfolding plainTransports_def
  proof (intro allI impI)
    fix k q ts x
    assume a: "transportsOf k q ?s' = Some ts" and x: "x \<in> set ts"
    show "appData_direction (snd x) = None"
    proof (cases "k = roomId \<and> q = peerId")
      case True
      with a t have "ts = AList.update transportId ?t (transports peer)" by simp
      with x have "x = (transportId, ?t) \<or> x \<in> set (transports peer)"
        using set_alist_update [of transportId ?t "transports peer"] by auto
      moreover have "transportsOf roomId peerId s = Some (transports peer)"
        using p by (simp add: transportsOf_def)
      ultimately show ?thesis
        using plainTransportsD [OF assms, of roomId peerId "transports peer" x] by auto
    next
      case False
      with a t have "transportsOf k q s = Some ts" by simp
      with x assms show ?thesis by (intro plainTransportsD)
    qed
  qed
  then have "plainTransports (emitTo (socket_emit (data_peerId socket)) (transportCreated transportId) ?s')"
    by (rule plainTransports_same) simp
  then show ?thesis by (simp only: h)
qed

lemma plain_exec: "plainTransports s \<Longrightarrow> plainTransports (exec x s)"
proof (cases x)
  case (do_handleCreateTransport socket peerId direction engine)
  assume "plainTransports s"
  then show ?thesis using do_handleCreateTransport by (simp add: plain_handleCreateTransport)
qed (auto intro: plainTransports_same)

lemma plain_execAll: "plainTransports s \<Longrightarrow> plainTransports (execAll xs s)"
  by (induction xs arbitrary: s) (simp_all add: plain_exec)

lemma plain_initial: "plainTransports initial"
  by (simp add: plainTransports_def transportsOf_def getPeer_def initial_def)

text \<open>
  C2. For every joined peer, a \<^verbatim>\<open>consume\<close> request whose \<^verbatim>\<open>producerId\<close> names a producer of
  that same peer is rejected with an error and creates no consumer: in every state the
  server reaches from its start by gateway messages, service calls and FFmpeg events,
  \<^verbatim>\<open>handleConsume\<close> emits \<^verbatim>\<open>error\<close> to the requester and does nothing else, whatever the
  router and the engine would answer, and the peer's entry, its consumer map included,
  is as before. \<^verbatim>\<open>handleConsume\<close> makes no comparison of the producer's owner with the
  requester (lemma \<open>handleConsume_own_producer_cases\<close>); the request fails because the
  router cannot consume or, if it can, because the search for a transport whose
  \<^verbatim>\<open>appData.direction\<close> is \<^verbatim>\<open>recv\<close> finds none among the peer's transports.
\<close>

theorem handleConsume_own_producer_rejected:
  assumes "data_roomId socket = Some roomId"
    and "getPeer roomId peerId (execAll ops initial) = Some peer"
    and "map_of (producers peer) producerId \<noteq> None"
  shows "(\<exists>m. handleConsume socket peerId producerId canConsume engine (execAll ops initial)
               = emitTo (socket_emit (data_peerId socket)) (error_msg m) (execAll ops initial)) \<and>
         getPeer roomId peerId
             (handleConsume socket peerId producerId canConsume engine (execAll ops initial))
           = Some peer"
proof -
  let ?s = "execAll ops initial"
  have "plainTransports ?s"
    using plain_initial by (rule plain_execAll)
  moreover have "transportsOf roomId peerId ?s = Some (transports peer)"
    using assms(2) by (simp add: transportsOf_def)
  ultimately have "\<forall>t \<in> set (transports peer). appData_direction (snd t) = None"
    using plainTransportsD by blast
  then have n: "find (\<lambda>t. appData_direction t = Some ''recv'') (map snd (transports peer)) = None"
    by (auto simp: find_None_iff)
  obtain m producer where
    "handleConsume socket peerId producerId canConsume engine ?s =
       (if \<not> canConsume then emitTo (socket_emit (data_peerId socket)) (error_msg ''Cannot consume'') ?s
        else if find (\<lambda>t. appData_direction t = Some ''recv'') (map snd (transports peer)) = None
        then emitTo (socket_emit (data_peerId socket)) (error_msg ''Receive transport not found'') ?s
        else case engine of
               Inl e \<Rightarrow> emitTo (socket_emit (data_peerId socket)) (error_msg m) ?s
             | Inr consumer \<Rightarrow>
                 emitTo (socket_emit (data_peerId socket))
                   (consumed (consumer_id consumer) producer
                      (consumer_kind consumer) (consumer_rtpParameters consumer))
                   (updatePeer roomId peerId
                      (\<lambda>p. p\<lparr>consumers := AList.update (consumer_id consumer) consumer (consumers p)\<rparr>)
                      ?s))"
    using handleConsume_own_producer_cases [OF assms, of canConsume engine] by blast
  with n have e: "\<exists>m. handleConsume socket peerId producerId canConsume engine ?s
               = emitTo (socket_emit (data_peerId socket)) (error_msg m) ?s"
    by (cases canConsume) auto
  then show ?thesis using assms(2) by auto
qed

theorem handleConsume_own_producer_rejected_witness:
  "getPeer ''room-1'' ''peer-a'' (execAll consumeOps initial) = Some peerAProducing \<and>
   map_of (producers peerAProducing) ''p-1'' = Some videoProducer \<and>
   (\<exists>m. handleConsume socketAJoined ''peer-a'' ''p-1'' True (Inr ownConsumer) (execAll consumeOps initial)
          = emitTo (socket_emit ''peer-a'') (error_msg m) (execAll consumeOps initial)) \<and>
   getPeer ''room-1'' ''peer-a''
       (handleConsume socketAJoined ''peer-a'' ''p-1'' True (Inr ownConsumer) (execAll consumeOps initial))
     = Some peerAProducing"
proof -
  have g: "getPeer ''room-1'' ''peer-a'' (execAll consumeOps initial) = Some peerAProducing"
    by code_simp
  have p: "map_of (producers peerAProducing) ''p-1'' = Some videoProducer"
    by (simp add: peerAProducing_def)
  then have p': "map_of (producers peerAProducing) ''p-1'' \<noteq> None" by simp
  show ?thesis
    using handleConsume_own_producer_rejected
            [OF socketAJoined_roomId g p', of True "Inr ownConsumer"] g p socketAJoined_peerId
    by simp
qed

text \<open>The peer holds the transport it was given for its \<^verbatim>\<open>recv\<close> request, the router can
  consume and the engine would return a consumer; the error is the missing receive
  transport.\<close>

lemma consume_own_producer_message:
  "execAll consumeOps initial = producing \<and>
   handleConsume socketAJoined ''peer-a'' ''p-1'' True (Inr ownConsumer) producing
     = emitTo (socket_emit ''peer-a'') (error_msg ''Receive transport not found'') producing"
  by code_simp

section \<open>Counting joins and leaves\<close>

lemma length_delete_present:
  "distinct (map fst al) \<Longrightarrow> map_of al k = Some v \<Longrightarrow> Suc (length (AList.delete k al)) = length al"
proof (induction al)
  case Nil
  then show ?case by simp
next
  case (Cons a al)
  then show ?case
    by (cases a) (auto simp: image_iff dest: map_of_SomeD)
qed

lemma length_update_absent:
  "map_of al k = None \<Longrightarrow> length (AList.update k v al) = Suc (length al)"
  by (induction al) (auto split: if_splits)

lemma roomOp_absent:
  "map_of (rooms s) roomId = None \<Longrightarrow> roomOp roomId x s = (False, s)"
  by (cases x) (simp_all add: joinRoom_def leaveRoom_None getPeer_def)

lemma runOps_absent:
  assumes "map_of (rooms s) roomId = None"
  shows "runOps roomId ops s = s \<and> successfulJoins roomId ops s = 0 \<and> successfulLeaves roomId ops s = 0"
  using assms by (induction ops) (simp_all add: roomOp_absent)

text \<open>One operation on a registered room.\<close>

lemma roomOp_step:
  assumes r: "map_of (rooms s) roomId = Some room" and d: "distinct (map fst (peers room))"
  shows
   "(roomOp roomId x s = (False, s)) \<or>
    (isJoin x \<and> fst (roomOp roomId x s) \<and>
       (\<exists>room'. map_of (rooms (snd (roomOp roomId x s))) roomId = Some room' \<and>
          distinct (map fst (peers room')) \<and> length (peers room') = Suc (length (peers room))) \<and>
       routers (snd (roomOp roomId x s)) = routers s) \<or>
    (\<not> isJoin x \<and> fst (roomOp roomId x s) \<and> 2 \<le> length (peers room) \<and>
       (\<exists>room'. map_of (rooms (snd (roomOp roomId x s))) roomId = Some room' \<and>
          distinct (map fst (peers room')) \<and> Suc (length (peers room')) = length (peers room)) \<and>
       routers (snd (roomOp roomId x s)) = routers s) \<or>
    (\<not> isJoin x \<and> fst (roomOp roomId x s) \<and> length (peers room) = 1 \<and>
       map_of (rooms (snd (roomOp roomId x s))) roomId = None \<and>
       map_of (routers (snd (roomOp roomId x s))) roomId = None \<and>
       (\<forall>rt. map_of (routers s) roomId = Some rt \<longrightarrow>
          router_close rt \<in> set (trace (snd (roomOp roomId x s)))))"
proof (cases x)
  case (op_join peerId peerName)
  show ?thesis
  proof (cases "map_of (peers room) peerId")
    case None
    then show ?thesis
      using r d op_join
      by (simp add: joinRoom_def Let_def AList.update_conv' AList.distinct_update length_update_absent)
  next
    case (Some a)
    then show ?thesis using r op_join by (simp add: joinRoom_def)
  qed
next
  case (op_leave peerId)
  show ?thesis
  proof (cases "map_of (peers room) peerId")
    case None
    then show ?thesis using r op_leave by (simp add: leaveRoom_None getPeer_def)
  next
    case (Some peer)
    have len: "Suc (length (AList.delete peerId (peers room))) = length (peers room)"
      using d Some by (rule length_delete_present)
    show ?thesis
    proof (cases "AList.delete peerId (peers room) = []")
      case True
      then have "length (peers room) = 1" using len by simp
      then show ?thesis
        using op_leave True
        by (simp add: leaveRoom_Some [OF r Some] AList.delete_conv' removeRouter_def afterLeave_def
            effects_def split: option.splits)
    next
      case False
      then have "2 \<le> length (peers room)"
        using len by (cases "AList.delete peerId (peers room)") auto
      then show ?thesis
        using op_leave False d len
        by (simp add: leaveRoom_Some [OF r Some] afterLeave_def AList.update_conv'
            AList.distinct_delete effects_def)
    qed
  qed
qed


lemma roomOp_cases:
  assumes "map_of (rooms s) roomId = Some room" and "distinct (map fst (peers room))"
  obtains
    (fail) "roomOp roomId x s = (False, s)"
  | (join) room' where "isJoin x" "fst (roomOp roomId x s)"
      "map_of (rooms (snd (roomOp roomId x s))) roomId = Some room'" "distinct (map fst (peers room'))"
      "length (peers room') = Suc (length (peers room))"
      "routers (snd (roomOp roomId x s)) = routers s"
  | (leave) room' where "\<not> isJoin x" "fst (roomOp roomId x s)" "2 \<le> length (peers room)"
      "map_of (rooms (snd (roomOp roomId x s))) roomId = Some room'" "distinct (map fst (peers room'))"
      "Suc (length (peers room')) = length (peers room)"
      "routers (snd (roomOp roomId x s)) = routers s"
  | (last) "\<not> isJoin x" "fst (roomOp roomId x s)" "length (peers room) = 1"
      "map_of (rooms (snd (roomOp roomId x s))) roomId = None"
      "map_of (routers (snd (roomOp roomId x s))) roomId = None"
      "\<forall>rt. map_of (routers s) roomId = Some rt \<longrightarrow>
         router_close rt \<in> set (trace (snd (roomOp roomId x s)))"
  using roomOp_step [OF assms, of x]
  apply (elim disjE exE conjE)
     apply (rule fail; assumption)
    apply (rule join; assumption)
   apply (rule leave; assumption)
  apply (rule last; assumption)
  done

lemma runOps_count:
  assumes "map_of (rooms s) roomId = Some room" and "distinct (map fst (peers room))"
  shows "peersCount roomId (runOps roomId ops s) + successfulLeaves roomId ops s
           = length (peers room) + successfulJoins roomId ops s \<and>
         (map_of (rooms (runOps roomId ops s)) roomId = None \<longleftrightarrow>
            0 < successfulLeaves roomId ops s \<and>
            length (peers room) + successfulJoins roomId ops s = successfulLeaves roomId ops s) \<and>
         (map_of (rooms (runOps roomId ops s)) roomId = None \<longrightarrow>
            map_of (routers (runOps roomId ops s)) roomId = None \<and>
            (\<forall>rt. map_of (routers s) roomId = Some rt \<longrightarrow>
               router_close rt \<in> set (trace (runOps roomId ops s))))"
  using assms
proof (induction ops arbitrary: s room)
  case Nil
  then show ?case by (simp add: peersCount_def)
next
  case (Cons x xs)
  let ?s1 = "snd (roomOp roomId x s)"
  note ih = Cons.IH
  have e1: "runOps roomId (x # xs) s = runOps roomId xs ?s1" by simp
  have e2: "successfulJoins roomId (x # xs) s
              = (if isJoin x \<and> fst (roomOp roomId x s) then 1 else 0) + successfulJoins roomId xs ?s1"
    by simp
  have e3: "successfulLeaves roomId (x # xs) s
              = (if \<not> isJoin x \<and> fst (roomOp roomId x s) then 1 else 0) + successfulLeaves roomId xs ?s1"
    by simp
  show ?case
  proof (rule roomOp_cases [OF Cons.prems, of x], goal_cases)
    case 1
    then have f: "\<not> fst (roomOp roomId x s)" and s1: "?s1 = s" by simp_all
    show ?case
      unfolding e1 e2 e3 using ih [OF Cons.prems] f unfolding s1 by simp
  next
    case (2 room')
    show ?case
      unfolding e1 e2 e3 using ih [OF 2(3,4)] 2(1,2,5,6) by auto
  next
    case (3 room')
    show ?case
      unfolding e1 e2 e3 using ih [OF 3(4,5)] 3(1,2,3,6,7) by auto
  next
    case 4
    show ?case
      unfolding e1 e2 e3 using runOps_absent [OF 4(4), of xs] 4 by (simp add: peersCount_def)
  qed
qed

lemma oneJoined_room:
  "getRoom ''room-1'' oneJoined =
     Some \<lparr>room_id = ''room-1'', room_name = ''lobby'',
           peers = [(''peer-a'', \<lparr>peer_id = ''peer-a'', peer_name = ''Ann'',
                                  transports = [], producers = [], consumers = []\<rparr>)],
           router = ''router-1'',
           recording = \<lparr>isRecording = False, recordingId = None, startTime = None,
                        filePath = None\<rparr>\<rparr>"
  by (simp add: oneJoined_eq getRoom_def)

text \<open>
  C1. Take a registered room (its peer map, a JavaScript \<^verbatim>\<open>Map\<close>, has no key twice) and
  any finite sequence of \<^verbatim>\<open>joinRoom\<close> and \<^verbatim>\<open>leaveRoom\<close> calls on it. After the sequence
  the size of the room's peer map is the size before, plus the number of successful
  joins, minus the number of successful leaves; for a room that starts empty this is
  joins minus leaves. The room is gone from the registry exactly when a successful
  leave has brought that count to zero, and then its router is closed and removed as
  well. (\<open>peersCount\<close> is zero for a room that is no longer registered.)
\<close>

theorem join_leave_count:
  assumes "getRoom roomId s = Some room" and "distinct (map fst (peers room))"
  shows "peersCount roomId (runOps roomId ops s) + successfulLeaves roomId ops s
           = length (peers room) + successfulJoins roomId ops s \<and>
         (getRoom roomId (runOps roomId ops s) = None \<longleftrightarrow>
            0 < successfulLeaves roomId ops s \<and>
            length (peers room) + successfulJoins roomId ops s = successfulLeaves roomId ops s) \<and>
         (getRoom roomId (runOps roomId ops s) = None \<longrightarrow>
            map_of (routers (runOps roomId ops s)) roomId = None \<and>
            (\<forall>rt. map_of (routers s) roomId = Some rt \<longrightarrow>
               router_close rt \<in> set (trace (runOps roomId ops s))))"
  using assms runOps_count [of s roomId room ops] by (simp add: getRoom_def)

theorem join_leave_count_witness:
  "successfulJoins ''room-1'' fourOps oneJoined = 1 \<and>
   successfulLeaves ''room-1'' fourOps oneJoined = 2 \<and>
   peersCount ''room-1'' oneJoined = 1 \<and>
   peersCount ''room-1'' (runOps ''room-1'' fourOps oneJoined) = 0 \<and>
   getRoom ''room-1'' (runOps ''room-1'' fourOps oneJoined) = None \<and>
   router_close ''router-1'' \<in> set (trace (runOps ''room-1'' fourOps oneJoined))"
proof -
  have j: "successfulJoins ''room-1'' fourOps oneJoined = 1"
    and l: "successfulLeaves ''room-1'' fourOps oneJoined = 2"
    by code_simp+
  have n: "peersCount ''room-1'' oneJoined = 1"
    and r: "map_of (routers oneJoined) ''room-1'' = Some ''router-1''"
    by (simp_all add: oneJoined_eq peersCount_def)
  show ?thesis
    using join_leave_count [OF oneJoined_room, of fourOps] j l n r by simp
qed

section \<open>The client and its own id\<close>

text \<open>The messages the gateway sends for the three joins.\<close>

lemma three_joins_messages:
  "trace (execAll threeJoins initial) =
     [emit (socket_emit ''id-1'') (joined ''id-1'' ''room-1'' (Some ''router-1'') False),
      emit (socket_to ''id-1'' ''room-1'') (peerJoined ''id-1'' ''Ann''),
      emit (socket_emit ''id-1'') (existingPeers []),
      emit (socket_emit ''id-2'') (joined ''id-2'' ''room-1'' (Some ''router-1'') False),
      emit (socket_to ''id-2'' ''room-1'') (peerJoined ''id-2'' ''Ann''),
      emit (socket_emit ''id-2'') (existingPeers [(''id-1'', ''Ann'')]),
      emit (socket_emit ''id-3'') (joined ''id-3'' ''room-1'' (Some ''router-1'') False),
      emit (socket_to ''id-3'' ''room-1'') (peerJoined ''id-3'' ''Ann''),
      emit (socket_emit ''id-3'') (existingPeers [(''id-1'', ''Ann''), (''id-2'', ''Ann'')])]"
  by code_simp

text \<open>
  The handlers the mount effect makes see \<^verbatim>\<open>localPeerId\<close> as \<^verbatim>\<open>null\<close> for good, also
  after the acknowledgement, so \<^verbatim>\<open>onPeerJoined\<close> skips every peer: as long as the button
  is not pressed, the participant list stays empty, whatever arrives.
\<close>

lemma mounted_eq: "mounted = \<lparr>component = mount, closures = [None]\<rparr>"
  by (simp add: mounted_def initializeWebRTC_def mount_def)

lemma onPeerJoined_null: "participants (onPeerJoined None peer vc) = participants vc"
  by (simp add: onPeerJoined_def setParticipantsWithLogging_def)

lemma fold_onPeerJoined_null: "participants (fold (onPeerJoined None) ps vc) = participants vc"
  by (induction ps arbitrary: vc) (simp_all add: onPeerJoined_null)

lemma onPeerLeft_empty: "participants vc = [] \<Longrightarrow> participants (onPeerLeft lp peerId vc) = []"
  by (simp add: onPeerLeft_def setParticipantsWithLogging_def Let_def)

lemma mounted_client_list_empty:
  assumes "\<forall>e \<in> set evs. fromSocket 0 e"
  shows "participants (component (browserRun evs mounted)) = [] \<and>
         closures (browserRun evs mounted) = [None]"
proof -
  have "participants (component (browserRun evs b)) = [] \<and> closures (browserRun evs b) = [None]"
    if "\<forall>e \<in> set evs. fromSocket 0 e" and "participants (component b) = []" and "closures b = [None]"
    for b
    using that
  proof (induction evs arbitrary: b)
    case Nil
    then show ?case by simp
  next
    case (Cons e evs)
    have "participants (component (browserStep e b)) = [] \<and> closures (browserStep e b) = [None]"
    proof (cases e)
      case press_start
      then show ?thesis using Cons.prems by (simp add: fromSocket_def)
    next
      case (timer_fired peerId)
      then show ?thesis using Cons.prems by simp
    next
      case (socket_message j ev)
      then have j: "j = 0" using Cons.prems by (simp add: fromSocket_def)
      show ?thesis
        using Cons.prems socket_message j
        by (cases ev)
           (simp_all add: fromSocket_def onJoined_def onPeerJoined_null fold_onPeerJoined_null
              onPeerLeft_empty)
    qed
    then show ?case using Cons.IH [of "browserStep e b"] Cons.prems by simp
  qed
  then show ?thesis using assms by (simp add: mounted_eq mount_def)
qed

text \<open>
  C8 does not hold of the component. The claim: under every interleaving of the join
  acknowledgement, the snapshot \<^verbatim>\<open>existingPeers\<close> and the deltas \<^verbatim>\<open>peerJoined\<close> and
  \<^verbatim>\<open>peerLeft\<close>, the participant list never has an entry whose id is the local peer id.
  The guard in \<^verbatim>\<open>onPeerJoined\<close> and the filter in \<^verbatim>\<open>setParticipantsWithLogging\<close> are
  there for it, but both compare with the \<^verbatim>\<open>localPeerId\<close> of the render that made the
  handlers. In the run \<open>lateAck\<close> the handlers of the second and third client were made
  when the local id was \<^verbatim>\<open>id-1\<close>. The snapshot for the third connection names
  \<^verbatim>\<open>id-2\<close>, the second connection of the same tab, and it is listed; when the
  acknowledgement of the second connection then arrives, \<^verbatim>\<open>localPeerId\<close> becomes
  \<^verbatim>\<open>id-2\<close>: the list holds the local peer id. Every message of the run is one the
  gateway sends for these joins (lemma \<open>three_joins_messages\<close>).
\<close>

theorem late_acknowledgement_lists_local_id:
  "closures (browserRun lateAck mounted) = [None, Some ''id-1'', Some ''id-1''] \<and>
   localPeerId (component (browserRun lateAck mounted)) = Some ''id-2'' \<and>
   participants (component (browserRun lateAck mounted)) = [\<lparr>cp_id = ''id-2'', cp_name = ''Ann''\<rparr>]"
  by code_simp

text \<open>With one press the guard already compares with the wrong id: a delta that names
  the new connection is listed. The gateway sends \<^verbatim>\<open>peerJoined\<close> to the other sockets of
  the room only, so this delta is not one of its messages.\<close>

lemma stale_guard_lists_own_delta:
  "closures (browserRun ownDelta mounted) = [None, Some ''id-1''] \<and>
   localPeerId (component (browserRun ownDelta mounted)) = Some ''id-2'' \<and>
   participants (component (browserRun ownDelta mounted)) = [\<lparr>cp_id = ''id-2'', cp_name = ''Ann''\<rparr>]"
  by code_simp

text \<open>The handler of \<^verbatim>\<open>participantList\<close>, a message the gateway never sends, stores the
  list it is given; the filter of the mounting render removes nothing.\<close>

lemma participantList_before_joined:
  "participants (component (browserRun
       [socket_message 0 (ev_participantList [\<lparr>cp_id = ''me'', cp_name = ''Me''\<rparr>]),
        socket_message 0 (ev_joined ''me'')] mounted))
     = [\<lparr>cp_id = ''me'', cp_name = ''Me''\<rparr>]"
  by code_simp

section \<open>Recordings when calls do not overlap\<close>

lemma frame_refl [simp]: "frame s s"
  by (simp add: frame_def)

lemma frame_trans: "frame s s1 \<Longrightarrow> frame s1 s2 \<Longrightarrow> frame s s2"
  unfolding frame_def by metis

lemma inv_distinct: "recordingInv used s \<Longrightarrow> distinct (map fst (recordings s))"
  by (simp add: recordingInv_def)

lemma inv_room: "recordingInv used s \<Longrightarrow> map_of (rooms s) k \<noteq> None \<Longrightarrow> k \<in> set used"
  by (simp add: recordingInv_def)

lemma inv_rec:
  assumes "recordingInv used s" and "map_of (recordings s) k = Some r"
  shows "rec_roomId r \<in> set used"
proof -
  have "\<forall>recId r. map_of (recordings s) recId = Some r \<longrightarrow> rec_roomId r \<in> set used"
    using assms(1) by (simp add: recordingInv_def)
  then show ?thesis using assms(2) by auto
qed

lemma inv_flag:
  assumes "recordingInv used s" and "activeIn s k r"
  shows "flagOf (rec_roomId r) s \<noteq> Some False"
proof -
  have "\<forall>recId r. activeIn s recId r \<longrightarrow> flagOf (rec_roomId r) s \<noteq> Some False"
    using assms(1) by (simp add: recordingInv_def)
  then show ?thesis using assms(2) by auto
qed

lemma inv_sole:
  assumes "recordingInv used s" and "activeIn s k r" and "activeIn s k' r'"
    and "rec_roomId r = rec_roomId r'"
  shows "k = k'"
proof -
  have "\<forall>recId recId' r r'. activeIn s recId r \<and> activeIn s recId' r' \<and> rec_roomId r = rec_roomId r'
         \<longrightarrow> recId = recId'"
    using assms(1) by (simp add: recordingInv_def)
  then show ?thesis using assms(2-4) by auto
qed

lemma inv_mono: "recordingInv used s \<Longrightarrow> recordingInv (u # used) s"
  by (simp add: recordingInv_def)

text \<open>A step that starts no recording and sets no flag keeps the invariant.\<close>

lemma shrink_inv:
  assumes i: "recordingInv used s"
    and d: "distinct (map fst (recordings s'))"
    and u: "\<And>k r. map_of (recordings s') k = Some r \<Longrightarrow> rec_roomId r \<in> set used"
    and a: "\<And>k r. activeIn s' k r \<Longrightarrow> activeIn s k r"
    and fl: "\<And>k. flagOf k s' = None \<or> flagOf k s' = flagOf k s"
  shows "recordingInv used s'"
proof -
  have room: "map_of (rooms s) k \<noteq> None" if "map_of (rooms s') k \<noteq> None" for k
    using fl [of k] that by (cases "map_of (rooms s) k") (auto simp: flagOf_def)
  have flag: "flagOf k s' \<noteq> Some False" if "flagOf k s \<noteq> Some False" for k
    using fl [of k] that by auto
  show ?thesis
    unfolding recordingInv_def
  proof (intro conjI allI impI)
    show "distinct (map fst (recordings s'))" by (rule d)
  next
    fix roomId assume "map_of (rooms s') roomId \<noteq> None"
    then have "map_of (rooms s) roomId \<noteq> None" by (rule room)
    then show "roomId \<in> set used" by (rule inv_room [OF i])
  next
    fix recId r assume "map_of (recordings s') recId = Some r"
    then show "rec_roomId r \<in> set used" by (rule u)
  next
    fix recId r assume "activeIn s' recId r"
    then have "activeIn s recId r" by (rule a)
    then have "flagOf (rec_roomId r) s \<noteq> Some False" by (rule inv_flag [OF i])
    then show "flagOf (rec_roomId r) s' \<noteq> Some False" by (rule flag)
  next
    fix recId recId' r r'
    assume h: "activeIn s' recId r \<and> activeIn s' recId' r' \<and> rec_roomId r = rec_roomId r'"
    then have "activeIn s recId r" "activeIn s recId' r'" "rec_roomId r = rec_roomId r'"
      using a by auto
    then show "recId = recId'" by (rule inv_sole [OF i])
  qed
qed

lemma frame_inv:
  assumes i: "recordingInv used s" and f: "frame s s'"
  shows "recordingInv used s'"
proof (rule shrink_inv [OF i])
  show "distinct (map fst (recordings s'))"
    using inv_distinct [OF i] f by (simp add: frame_def)
next
  fix k r assume "map_of (recordings s') k = Some r"
  then have "map_of (recordings s) k = Some r" using f by (simp add: frame_def)
  then show "rec_roomId r \<in> set used" by (rule inv_rec [OF i])
next
  fix k r assume "activeIn s' k r"
  then show "activeIn s k r" using f by (simp add: frame_def activeIn_def)
next
  fix k show "flagOf k s' = None \<or> flagOf k s' = flagOf k s"
    using f by (simp add: frame_def)
qed

lemma frame_effects [simp]: "frame s (effects es s)"
  by (simp add: frame_def flagOf_def)

lemma frame_emitTo [simp]: "frame s (emitTo t m s)"
  by (simp add: frame_def flagOf_def)

lemma frame_emitError [simp]: "frame s (emitError socket e s)"
  by (cases e) (simp add: emitError_def)

lemma frame_updatePeer [simp]: "frame s (updatePeer roomId peerId f s)"
  by (auto simp: frame_def flagOf_def updatePeer_def AList.update_conv' split: option.splits)

lemma frame_removeRouter [simp]: "frame s (removeRouter roomId s)"
  by (auto simp: frame_def flagOf_def removeRouter_def split: option.splits)

lemma frame_joinRoom [simp]: "frame s (snd (joinRoom roomId peerId peerName s))"
  by (auto simp: frame_def flagOf_def joinRoom_def AList.update_conv' Let_def split: option.splits)

lemma frame_leaveRoom [simp]: "frame s (snd (leaveRoom roomId peerId s))"
proof (cases "getPeer roomId peerId s")
  case None
  then show ?thesis by (simp add: leaveRoom_None)
next
  case (Some peer)
  then obtain room where r: "map_of (rooms s) roomId = Some room"
    and p: "map_of (peers room) peerId = Some peer"
    by (auto simp: getPeer_def split: option.splits)
  show ?thesis
    by (auto simp: leaveRoom_Some [OF r p] frame_def flagOf_def afterLeave_def AList.update_conv'
        AList.delete_conv' removeRouter_def r split: option.splits)
qed

lemma frame_closeRoomPeers [simp]: "frame s (closeRoomPeers roomId ps s)"
proof (induction ps arbitrary: s)
  case Nil
  then show ?case by simp
next
  case (Cons p ps)
  show ?case
    using frame_trans [OF frame_leaveRoom [of s roomId p] Cons [of "snd (leaveRoom roomId p s)"]]
    by simp
qed

lemma frame_closeRoom [simp]: "frame s (snd (closeRoom roomId s))"
proof (cases "map_of (rooms s) roomId")
  case None
  then show ?thesis by (simp add: closeRoom.simps)
next
  case (Some room)
  let ?s1 = "closeRoomPeers roomId (map (\<lambda>p. peer_id (snd p)) (peers room)) s"
  let ?s2 = "removeRouter roomId ?s1"
  have "frame s ?s2"
    using frame_trans [OF frame_closeRoomPeers frame_removeRouter] .
  moreover have "frame ?s2 ((effects [rooms_delete roomId] ?s2)\<lparr>rooms := AList.delete roomId (rooms ?s2)\<rparr>)"
    by (auto simp: frame_def flagOf_def AList.delete_conv')
  ultimately show ?thesis
    using Some by (simp add: closeRoom.simps Let_def frame_trans)
qed

lemma frame_emitTo_after [simp]: "frame s s' \<Longrightarrow> frame s (emitTo t m s')"
  using frame_trans [OF _ frame_emitTo] by blast

lemma frame_emitError_after [simp]: "frame s s' \<Longrightarrow> frame s (emitError socket e s')"
  using frame_trans [OF _ frame_emitError] by blast

lemma frame_updatePeer_after [simp]: "frame s s' \<Longrightarrow> frame s (updatePeer roomId peerId f s')"
  using frame_trans [OF _ frame_updatePeer] by blast

lemma frame_handleDisconnect [simp]: "frame s (handleDisconnect socket s)"
  by (simp add: handleDisconnect_def split: option.splits)

lemma frame_handleCreateTransport [simp]: "frame s (handleCreateTransport socket peerId direction engine s)"
  by (simp add: handleCreateTransport_def split: option.splits sum.splits)

lemma frame_handleProduce [simp]: "frame s (handleProduce socket peerId transportId kind engine s)"
  by (simp add: handleProduce_def split: option.splits sum.splits)

lemma frame_handleConsume [simp]: "frame s (handleConsume socket peerId producerId canConsume engine s)"
  by (simp add: handleConsume_def split: option.splits sum.splits)

lemma frame_onFfmpegError [simp]: "frame s (onFfmpegError recId s)"
  by (simp add: frame_def flagOf_def onFfmpegError_def)

lemma createRoom_inv:
  assumes i: "recordingInv used s" and f: "uuid \<notin> set used"
  shows "recordingInv (uuid # used) (snd (createRoom uuid roomName worker s))"
proof -
  let ?s' = "snd (createRoom uuid roomName worker s)"
  have rec: "recordings ?s' = recordings s"
    by (auto simp: createRoom_def createRouter_def Let_def split: option.splits sum.splits)
  have fl: "flagOf k ?s' = flagOf k s" if "k \<noteq> uuid" for k
    using that
    by (auto simp: createRoom_def createRouter_def Let_def flagOf_def AList.update_conv'
        split: option.splits sum.splits)
  have act: "activeIn ?s' k r = activeIn s k r" for k r
    by (simp add: activeIn_def rec)
  have ru: "rec_roomId r \<noteq> uuid" if "map_of (recordings s) k = Some r" for k r
    using inv_rec [OF i that] f by auto
  show ?thesis
    unfolding recordingInv_def
  proof (intro conjI allI impI)
    show "distinct (map fst (recordings ?s'))"
      using inv_distinct [OF i] by (simp add: rec)
  next
    fix roomId assume a: "map_of (rooms ?s') roomId \<noteq> None"
    show "roomId \<in> set (uuid # used)"
    proof (cases "roomId = uuid")
      case True
      then show ?thesis by simp
    next
      case False
      then have "flagOf roomId ?s' = flagOf roomId s" by (rule fl)
      then have "map_of (rooms s) roomId \<noteq> None"
        using a by (cases "map_of (rooms s) roomId") (auto simp: flagOf_def)
      then show ?thesis using inv_room [OF i] by simp
    qed
  next
    fix recId r assume "map_of (recordings ?s') recId = Some r"
    then have "map_of (recordings s) recId = Some r" by (simp add: rec)
    then show "rec_roomId r \<in> set (uuid # used)"
      using inv_rec [OF i] by simp
  next
    fix recId r assume a: "activeIn ?s' recId r"
    then have a': "activeIn s recId r" unfolding act .
    then have "map_of (recordings s) recId = Some r" by (simp add: activeIn_def)
    then have "rec_roomId r \<noteq> uuid" by (rule ru)
    then have "flagOf (rec_roomId r) ?s' = flagOf (rec_roomId r) s" by (rule fl)
    then show "flagOf (rec_roomId r) ?s' \<noteq> Some False"
      using inv_flag [OF i a'] by simp
  next
    fix recId recId' r r'
    assume "activeIn ?s' recId r \<and> activeIn ?s' recId' r' \<and> rec_roomId r = rec_roomId r'"
    then have "activeIn s recId r" "activeIn s recId' r'" "rec_roomId r = rec_roomId r'"
      unfolding act by auto
    then show "recId = recId'" by (rule inv_sole [OF i])
  qed
qed

lemma recordings_updateRoomRecordingStatus [simp]:
  "recordings (updateRoomRecordingStatus roomId b recId path now s) = recordings s"
  by (simp add: updateRoomRecordingStatus_def Let_def split: option.splits)

lemma flagOf_updateRoomRecordingStatus:
  "flagOf k (updateRoomRecordingStatus roomId b recId path now s)
     = (if k = roomId \<and> map_of (rooms s) roomId \<noteq> None then Some b else flagOf k s)"
  by (auto simp: updateRoomRecordingStatus_def flagOf_def Let_def AList.update_conv'
      split: option.splits)

lemma map_of_update_cases:
  "map_of (AList.update k v al) k' = Some r \<Longrightarrow> (k' = k \<and> r = v) \<or> (k' \<noteq> k \<and> map_of al k' = Some r)"
  by (auto simp: AList.update_conv' split: if_splits)

text \<open>What a whole \<^verbatim>\<open>startRecording\<close> call does to the sessions and the flags.\<close>

lemma startRecording_result:
  "frame s (snd (startRecording env roomId s)) \<or>
   (\<exists>info. rec_roomId info = roomId \<and> map_of (rooms s) roomId \<noteq> None \<and>
      flagOf roomId s = Some False \<and>
      recordings (snd (startRecording env roomId s))
        = AList.update (env_uuidv4 env) info (recordings s) \<and>
      (\<forall>k. flagOf k (snd (startRecording env roomId s))
             = (if k = roomId then Some True else flagOf k s)))"
proof (cases "getRoom roomId s")
  case None
  then show ?thesis by (simp add: startRecording_def)
next
  case (Some room)
  then have r: "map_of (rooms s) roomId = Some room" by (simp add: getRoom_def)
  show ?thesis
  proof (cases "isRoomRecording roomId s")
    case True
    then show ?thesis using Some by (simp add: startRecording_def)
  next
    case False
    then have f: "flagOf roomId s = Some False"
      using r by (simp add: isRoomRecording_def flagOf_def)
    show ?thesis
    proof (cases "env_plainTransport env")
      case (Inl e)
      then show ?thesis using Some False by (simp add: startRecording_def Let_def)
    next
      case (Inr port)
      show ?thesis
      proof (cases "env_ffmpeg env")
        case ffmpeg_start
        have "flagOf k (snd (startRecording env roomId s))
                = (if k = roomId then Some True else flagOf k s)" for k
          using Some False Inr ffmpeg_start r
          by (simp add: startRecording_def Let_def startFFmpegRecording_def
              flagOf_updateRoomRecordingStatus) (simp add: flagOf_def)
        then show ?thesis
          using Some False Inr ffmpeg_start r f
          by (intro disjI2
                exI [of _ "\<lparr>rec_id = env_uuidv4 env, rec_roomId = roomId,
                           rec_filePath = env_pathOf env (room_name room) (env_timestamp env),
                           rec_startTime = env_now env, rec_endTime = None,
                           rec_status = st_recording,
                           rec_participants = map fst (peers room)\<rparr>"])
             (simp add: startRecording_def Let_def startFFmpegRecording_def)
      next
        case (ffmpeg_error e)
        then show ?thesis
          using Some False Inr
          by (simp add: startRecording_def Let_def startFFmpegRecording_def frame_def flagOf_def)
      next
        case (ffmpeg_throw e)
        then show ?thesis
          using Some False Inr
          by (simp add: startRecording_def Let_def startFFmpegRecording_def)
      qed
    qed
  qed
qed

lemma startRecording_inv:
  assumes i: "recordingInv used s"
  shows "recordingInv used (snd (startRecording env roomId s))"
  using startRecording_result [of s env roomId]
proof (elim disjE exE conjE)
  assume "frame s (snd (startRecording env roomId s))"
  with i show ?thesis by (rule frame_inv)
next
  fix info
  let ?s' = "snd (startRecording env roomId s)"
  let ?u = "env_uuidv4 env"
  assume ri: "rec_roomId info = roomId" and ex: "map_of (rooms s) roomId \<noteq> None"
    and f: "flagOf roomId s = Some False"
    and rec: "recordings ?s' = AList.update ?u info (recordings s)"
    and fl: "\<forall>k. flagOf k ?s' = (if k = roomId then Some True else flagOf k s)"
  have used: "roomId \<in> set used"
    using ex by (rule inv_room [OF i])
  have noact: "rec_roomId r \<noteq> roomId" if "activeIn s k r" for k r
    using inv_flag [OF i that] f by auto
  have act: "(k = ?u \<and> r = info) \<or> (k \<noteq> ?u \<and> activeIn s k r)" if "activeIn ?s' k r" for k r
  proof -
    from that have m: "map_of (AList.update ?u info (recordings s)) k = Some r"
      and sr: "rec_status r = st_recording"
      by (simp_all add: activeIn_def rec)
    from map_of_update_cases [OF m] sr show ?thesis
      by (auto simp: activeIn_def)
  qed
  show ?thesis
    unfolding recordingInv_def
  proof (intro conjI allI impI)
    show "distinct (map fst (recordings ?s'))"
      using inv_distinct [OF i] by (simp add: rec AList.distinct_update)
  next
    fix k assume "map_of (rooms ?s') k \<noteq> None"
    then have "flagOf k ?s' \<noteq> None" by (simp add: flagOf_def)
    then have "k = roomId \<or> flagOf k s \<noteq> None" using fl by (auto split: if_splits)
    then have "k = roomId \<or> map_of (rooms s) k \<noteq> None" by (auto simp: flagOf_def)
    then show "k \<in> set used"
      using used inv_room [OF i, of k] by auto
  next
    fix k r assume "map_of (recordings ?s') k = Some r"
    then have m: "map_of (AList.update ?u info (recordings s)) k = Some r"
      by (simp add: rec)
    from map_of_update_cases [OF m] show "rec_roomId r \<in> set used"
    proof
      assume "k = ?u \<and> r = info"
      then show ?thesis using ri used by simp
    next
      assume "k \<noteq> ?u \<and> map_of (recordings s) k = Some r"
      then show ?thesis using inv_rec [OF i, of k r] by simp
    qed
  next
    fix k r assume "activeIn ?s' k r"
    then consider "r = info" | "activeIn s k r" using act by auto
    then show "flagOf (rec_roomId r) ?s' \<noteq> Some False"
    proof cases
      case 1
      then show ?thesis using fl ri by simp
    next
      case 2
      then have "flagOf (rec_roomId r) s \<noteq> Some False" by (rule inv_flag [OF i])
      then show ?thesis using fl by simp
    qed
  next
    fix k k' r r'
    assume a: "activeIn ?s' k r \<and> activeIn ?s' k' r' \<and> rec_roomId r = rec_roomId r'"
    show "k = k'"
    proof (cases "k = ?u")
      case True
      then have r: "r = info" using act [of k r] a by auto
      show ?thesis
      proof (cases "k' = ?u")
        case True
        then show ?thesis using \<open>k = ?u\<close> by simp
      next
        case False
        then have "activeIn s k' r'" using act [of k' r'] a by auto
        then have "rec_roomId r' \<noteq> roomId" by (rule noact)
        then show ?thesis using a r ri by simp
      qed
    next
      case False
      then have x: "activeIn s k r" using act [of k r] a by auto
      show ?thesis
      proof (cases "k' = ?u")
        case True
        then have "r' = info" using act [of k' r'] a by auto
        moreover have "rec_roomId r \<noteq> roomId" using x by (rule noact)
        ultimately show ?thesis using a ri by simp
      next
        case False
        then have "activeIn s k' r'" using act [of k' r'] a by auto
        with x show ?thesis using a inv_sole [OF i, of k r k' r'] by simp
      qed
    qed
  qed
qed

lemma stopRecording_kill_throws:
  assumes "map_of (recordings s) recId = Some r" "rec_status r = st_recording"
    "map_of (activeRecorders s) recId = Some rc" "kill = Some e"
  shows "snd (stopRecording now kill recId s) = s\<lparr>recordings := AList.update recId (r\<lparr>rec_status := st_failed\<rparr>) (recordings s)\<rparr>"
  using assms by (simp add: stopRecording_def)

lemma stopRecording_no_recorder:
  assumes "map_of (recordings s) recId = Some r" "rec_status r = st_recording"
    "map_of (activeRecorders s) recId = None"
  shows "snd (stopRecording now kill recId s) = updateRoomRecordingStatus (rec_roomId r) False None None now
                        (s\<lparr>recordings := AList.update recId (r\<lparr>rec_endTime := Some now, rec_status := st_stopped\<rparr>) (recordings s)\<rparr>)"
  using assms by (simp add: stopRecording_def Let_def)

lemma stopRecording_killed:
  assumes "map_of (recordings s) recId = Some r" "rec_status r = st_recording"
    "map_of (activeRecorders s) recId = Some rc" "kill = None"
  shows "snd (stopRecording now kill recId s) = updateRoomRecordingStatus (rec_roomId r) False None None now
                        (((effects [recorder_kill rc] s)
                                \<lparr>activeRecorders := AList.delete recId (activeRecorders s)\<rparr>)\<lparr>recordings := AList.update recId (r\<lparr>rec_endTime := Some now, rec_status := st_stopped\<rparr>) (recordings s)\<rparr>)"
  using assms by (simp add: stopRecording_def Let_def)


lemma stopRecording_result:
  "frame s (snd (stopRecording now kill recId s)) \<or>
   (\<exists>r r'. activeIn s recId r \<and> rec_roomId r' = rec_roomId r \<and> rec_status r' \<noteq> st_recording \<and>
      recordings (snd (stopRecording now kill recId s)) = AList.update recId r' (recordings s) \<and>
      (\<forall>k. k \<noteq> rec_roomId r \<longrightarrow> flagOf k (snd (stopRecording now kill recId s)) = flagOf k s) \<and>
      (flagOf (rec_roomId r) s = None \<longrightarrow>
       flagOf (rec_roomId r) (snd (stopRecording now kill recId s)) = None))"
proof (cases "map_of (recordings s) recId")
  case None
  then show ?thesis by (simp add: stopRecording_def)
next
  case (Some r)
  show ?thesis
  proof (cases "rec_status r = st_recording")
    case False
    then show ?thesis using Some by (simp add: stopRecording_def)
  next
    case True
    then have a: "activeIn s recId r" using Some by (simp add: activeIn_def)
    let ?s' = "snd (stopRecording now kill recId s)"
    let ?stopped = "r\<lparr>rec_endTime := Some now, rec_status := st_stopped\<rparr>"
    have stop: ?thesis
      if s1: "rooms s1 = rooms s" "recordings s1 = recordings s"
        and e: "?s' = updateRoomRecordingStatus (rec_roomId r) False None None now
                        (s1\<lparr>recordings := AList.update recId ?stopped (recordings s)\<rparr>)"
      for s1
    proof -
      have f: "flagOf k ?s' = (if k = rec_roomId r \<and> map_of (rooms s) (rec_roomId r) \<noteq> None
                               then Some False else flagOf k s)" for k
        unfolding e flagOf_updateRoomRecordingStatus using s1 by (simp add: flagOf_def)
      have c1: "recordings ?s' = AList.update recId ?stopped (recordings s)"
        unfolding e by simp
      have c2: "\<forall>k. k \<noteq> rec_roomId r \<longrightarrow> flagOf k ?s' = flagOf k s"
        using f by simp
      have c3: "flagOf (rec_roomId r) s = None \<longrightarrow> flagOf (rec_roomId r) ?s' = None"
        using f [of "rec_roomId r"] by (auto simp: flagOf_def)
      show ?thesis
        apply (rule disjI2)
        apply (rule exI [of _ r])
        apply (rule exI [of _ ?stopped])
        using a c1 c2 c3 apply simp
        done
    qed
    show ?thesis
    proof (cases "map_of (activeRecorders s) recId")
      case None
      show ?thesis
        by (rule stop [of s]) (simp_all add: stopRecording_no_recorder [OF Some True None])
    next
      case rc: (Some recorder)
      show ?thesis
      proof (cases kill)
        case None
        show ?thesis
          by (rule stop [of "(effects [recorder_kill recorder] s)
                               \<lparr>activeRecorders := AList.delete recId (activeRecorders s)\<rparr>"])
             (simp_all add: stopRecording_killed [OF Some True rc None])
      next
        case (Some e)
        let ?failed = "r\<lparr>rec_status := st_failed\<rparr>"
        have e: "?s' = s\<lparr>recordings := AList.update recId ?failed (recordings s)\<rparr>"
          by (rule stopRecording_kill_throws [OF \<open>map_of (recordings s) recId = Some r\<close> True rc Some])
        have c1: "recordings ?s' = AList.update recId ?failed (recordings s)"
          and c2: "\<forall>k. flagOf k ?s' = flagOf k s"
          unfolding e by (simp_all add: flagOf_def)
        show ?thesis
          apply (rule disjI2)
          apply (rule exI [of _ r])
          apply (rule exI [of _ ?failed])
          using a c1 c2 apply simp
          done
      qed
    qed
  qed
qed

lemma stopRecording_inv:
  assumes i: "recordingInv used s"
  shows "recordingInv used (snd (stopRecording now kill recId s))"
  using stopRecording_result [of s now kill recId]
proof (elim disjE exE conjE)
  assume "frame s (snd (stopRecording now kill recId s))"
  with i show ?thesis by (rule frame_inv)
next
  fix r r'
  let ?s' = "snd (stopRecording now kill recId s)"
  assume a: "activeIn s recId r" and rr: "rec_roomId r' = rec_roomId r"
    and st: "rec_status r' \<noteq> st_recording"
    and rec: "recordings ?s' = AList.update recId r' (recordings s)"
    and other: "\<forall>k. k \<noteq> rec_roomId r \<longrightarrow> flagOf k ?s' = flagOf k s"
    and own: "flagOf (rec_roomId r) s = None \<longrightarrow> flagOf (rec_roomId r) ?s' = None"
  have act: "k \<noteq> recId \<and> activeIn s k x" if "activeIn ?s' k x" for k x
  proof -
    from that have m: "map_of (AList.update recId r' (recordings s)) k = Some x"
      and sx: "rec_status x = st_recording"
      by (simp_all add: activeIn_def rec)
    from map_of_update_cases [OF m] st sx show ?thesis
      by (auto simp: activeIn_def)
  qed
  have sole: "rec_roomId x \<noteq> rec_roomId r" if "activeIn s k x" "k \<noteq> recId" for k x
    using inv_sole [OF i that(1) a] that(2) by auto
  have fnone: "flagOf k s = None \<Longrightarrow> flagOf k ?s' = None" for k
    using other own by (cases "k = rec_roomId r") auto
  show ?thesis
    unfolding recordingInv_def
  proof (intro conjI allI impI)
    show "distinct (map fst (recordings ?s'))"
      using inv_distinct [OF i] by (simp add: rec AList.distinct_update)
  next
    fix k assume "map_of (rooms ?s') k \<noteq> None"
    then have "flagOf k ?s' \<noteq> None" by (simp add: flagOf_def)
    then have "flagOf k s \<noteq> None" using fnone [of k] by (cases "flagOf k s") auto
    then have "map_of (rooms s) k \<noteq> None" by (auto simp: flagOf_def)
    then show "k \<in> set used" by (rule inv_room [OF i])
  next
    fix k x assume "map_of (recordings ?s') k = Some x"
    then have m: "map_of (AList.update recId r' (recordings s)) k = Some x"
      by (simp add: rec)
    have ru: "rec_roomId r \<in> set used"
      using a inv_rec [OF i, of recId r] by (simp add: activeIn_def)
    from map_of_update_cases [OF m] show "rec_roomId x \<in> set used"
    proof
      assume "k = recId \<and> x = r'"
      then show ?thesis using rr ru by simp
    next
      assume "k \<noteq> recId \<and> map_of (recordings s) k = Some x"
      then show ?thesis using inv_rec [OF i, of k x] by simp
    qed
  next
    fix k x assume "activeIn ?s' k x"
    then have k: "k \<noteq> recId" and x: "activeIn s k x" using act by auto
    then have "rec_roomId x \<noteq> rec_roomId r" using sole by auto
    then have "flagOf (rec_roomId x) ?s' = flagOf (rec_roomId x) s" using other by simp
    moreover have "flagOf (rec_roomId x) s \<noteq> Some False"
      by (rule inv_flag [OF i x])
    ultimately show "flagOf (rec_roomId x) ?s' \<noteq> Some False" by simp
  next
    fix k k' x x'
    assume h: "activeIn ?s' k x \<and> activeIn ?s' k' x' \<and> rec_roomId x = rec_roomId x'"
    then have "activeIn s k x" "activeIn s k' x'" "rec_roomId x = rec_roomId x'"
      using act by auto
    then show "k = k'" by (rule inv_sole [OF i])
  qed
qed

lemma deleteRecording_inv:
  assumes i: "recordingInv used s"
  shows "recordingInv used (snd (deleteRecording now kill fileExists recId s))"
proof (cases "map_of (recordings s) recId")
  case None
  then show ?thesis using i by (simp add: deleteRecording_def)
next
  case (Some r)
  let ?s1 = "if rec_status r = st_recording then snd (stopRecording now kill recId s) else s"
  let ?s2 = "if fileExists then effects [file_unlink (rec_filePath r)] ?s1 else ?s1"
  have i1: "recordingInv used ?s1"
    using i stopRecording_inv by simp
  have i2: "recordingInv used ?s2"
    using i1 frame_inv [OF i1 frame_effects] by simp
  have e: "snd (deleteRecording now kill fileExists recId s)
             = ?s2\<lparr>recordings := AList.delete recId (recordings ?s2)\<rparr>"
    using Some by (simp add: deleteRecording_def Let_def)
  show ?thesis
    unfolding e
  proof (rule shrink_inv [OF i2])
    show "distinct (map fst (recordings (?s2\<lparr>recordings := AList.delete recId (recordings ?s2)\<rparr>)))"
      using inv_distinct [OF i2] by (simp add: AList.distinct_delete)
  next
    fix k x
    assume "map_of (recordings (?s2\<lparr>recordings := AList.delete recId (recordings ?s2)\<rparr>)) k = Some x"
    then have "map_of (recordings ?s2) k = Some x"
      by (auto simp: AList.delete_conv' split: if_splits)
    then show "rec_roomId x \<in> set used"
      by (rule inv_rec [OF i2])
  next
    fix k x
    assume "activeIn (?s2\<lparr>recordings := AList.delete recId (recordings ?s2)\<rparr>) k x"
    then show "activeIn ?s2 k x"
      by (auto simp: activeIn_def AList.delete_conv' split: if_splits)
  next
    fix k
    show "flagOf k (?s2\<lparr>recordings := AList.delete recId (recordings ?s2)\<rparr>) = None \<or>
          flagOf k (?s2\<lparr>recordings := AList.delete recId (recordings ?s2)\<rparr>) = flagOf k ?s2"
      by (simp add: flagOf_def)
  qed
qed


lemma onFfmpegEnd_inv:
  assumes i: "recordingInv used s"
  shows "recordingInv used (onFfmpegEnd recId s)"
proof (rule shrink_inv [OF i])
  show "distinct (map fst (recordings (onFfmpegEnd recId s)))"
    using inv_distinct [OF i]
    by (auto simp: onFfmpegEnd_def Let_def AList.distinct_update split: option.splits)
next
  fix k x assume "map_of (recordings (onFfmpegEnd recId s)) k = Some x"
  then have "\<exists>y. map_of (recordings s) k = Some y \<and> rec_roomId y = rec_roomId x"
    by (auto simp: onFfmpegEnd_def Let_def AList.update_conv' split: option.splits if_splits)
  then obtain y where "map_of (recordings s) k = Some y" and "rec_roomId y = rec_roomId x"
    by auto
  then show "rec_roomId x \<in> set used"
    using inv_rec [OF i, of k y] by simp
next
  fix k x assume "activeIn (onFfmpegEnd recId s) k x"
  then show "activeIn s k x"
    by (auto simp: activeIn_def onFfmpegEnd_def Let_def AList.update_conv'
        split: option.splits if_splits)
next
  fix k
  show "flagOf k (onFfmpegEnd recId s) = None \<or> flagOf k (onFfmpegEnd recId s) = flagOf k s"
    by (auto simp: flagOf_def onFfmpegEnd_def Let_def split: option.splits)
qed



lemma handleStartRecording_inv:
  assumes "recordingInv used s"
  shows "recordingInv used (handleStartRecording env socket s)"
proof (cases "data_roomId socket")
  case None
  then show ?thesis
    using frame_inv [OF assms frame_emitError] by (simp add: handleStartRecording_def)
next
  case (Some roomId)
  obtain q s1 where c: "startRecording env roomId s = (q, s1)"
    by fastforce
  have i: "recordingInv used s1"
    using startRecording_inv [OF assms, of env roomId] c by simp
  show ?thesis
    using Some c frame_inv [OF i frame_emitError] frame_inv [OF i frame_emitTo]
    by (cases q) (simp_all add: handleStartRecording_def)
qed


lemma handleStopRecording_inv:
  assumes "recordingInv used s"
  shows "recordingInv used (handleStopRecording now kill socket recId s)"
proof -
  obtain q s1 where c: "stopRecording now kill recId s = (q, s1)"
    by fastforce
  have i: "recordingInv used s1"
    using stopRecording_inv [OF assms, of now kill recId] c by simp
  show ?thesis
    using c frame_inv [OF i frame_emitError] frame_inv [OF i frame_emitTo]
    by (cases q) (simp_all add: handleStopRecording_def)
qed


lemma handleJoin_inv:
  assumes i: "recordingInv used s" and f: "uuid \<notin> set used"
  shows "recordingInv (uuid # used) (snd (handleJoin uuid worker socket roomName peerName s))"
proof -
  obtain r s1 where c: "(case getRoomByName roomName s of
                 Some room \<Rightarrow> (Inr room, s)
               | None \<Rightarrow> createRoom uuid roomName worker s) = (r, s1)"
    by fastforce
  have i1: "recordingInv (uuid # used) s1"
  proof (cases "getRoomByName roomName s")
    case None
    then have "s1 = snd (createRoom uuid roomName worker s)" using c by simp
    then show ?thesis using createRoom_inv [OF i f] by simp
  next
    case (Some room)
    then have "s1 = s" using c by simp
    then show ?thesis using inv_mono [OF i] by simp
  qed
  have "frame s1 (snd (handleJoin uuid worker socket roomName peerName s))"
  proof (cases r)
    case (Inl e)
    then show ?thesis using c by (simp add: handleJoin_def Let_def)
  next
    case (Inr room)
    obtain q s2 where j: "joinRoom (room_id room) (data_peerId socket) peerName s1 = (q, s2)"
      by fastforce
    have fj: "frame s1 s2"
      using frame_joinRoom [of s1 "room_id room" "data_peerId socket" peerName] j by simp
    show ?thesis
      using c Inr j fj by (cases q) (simp_all add: handleJoin_def Let_def)
  qed
  with i1 show ?thesis by (rule frame_inv)
qed


lemma exec_inv:
  assumes i: "recordingInv used s" and f: "freshRoomIds used (x # xs)"
  shows "\<exists>used'. recordingInv used' (exec x s) \<and> freshRoomIds used' xs"
proof (cases x)
  case (do_handleJoin uuid worker socket roomName peerName)
  then show ?thesis
    using f handleJoin_inv [OF i, of uuid worker socket roomName peerName]
    by (intro exI [of _ "uuid # used"]) simp
next
  case (do_createRoom uuid roomName worker)
  then show ?thesis
    using f createRoom_inv [OF i, of uuid roomName worker]
    by (intro exI [of _ "uuid # used"]) simp
next
  case (do_handleDisconnect socket)
  then show ?thesis using f frame_inv [OF i frame_handleDisconnect] by (intro exI [of _ used]) simp
next
  case (do_handleCreateTransport socket peerId direction engine)
  then show ?thesis using f frame_inv [OF i frame_handleCreateTransport] by (intro exI [of _ used]) simp
next
  case (do_handleProduce socket peerId transportId kind engine)
  then show ?thesis using f frame_inv [OF i frame_handleProduce] by (intro exI [of _ used]) simp
next
  case (do_handleConsume socket peerId producerId canConsume engine)
  then show ?thesis using f frame_inv [OF i frame_handleConsume] by (intro exI [of _ used]) simp
next
  case (do_handleStartRecording env socket)
  then show ?thesis using f handleStartRecording_inv [OF i] by (intro exI [of _ used]) simp
next
  case (do_handleStopRecording now kill socket recId)
  then show ?thesis using f handleStopRecording_inv [OF i] by (intro exI [of _ used]) simp
next
  case (do_joinRoom roomId peerId peerName)
  then show ?thesis using f frame_inv [OF i frame_joinRoom] by (intro exI [of _ used]) simp
next
  case (do_leaveRoom roomId peerId)
  then show ?thesis using f frame_inv [OF i frame_leaveRoom] by (intro exI [of _ used]) simp
next
  case (do_closeRoom roomId)
  then show ?thesis using f frame_inv [OF i frame_closeRoom] by (intro exI [of _ used]) simp
next
  case (do_startRecording env roomId)
  then show ?thesis using f startRecording_inv [OF i] by (intro exI [of _ used]) simp
next
  case (do_stopRecording now kill recId)
  then show ?thesis using f stopRecording_inv [OF i] by (intro exI [of _ used]) simp
next
  case (do_deleteRecording now kill fileExists recId)
  then show ?thesis using f deleteRecording_inv [OF i] by (intro exI [of _ used]) simp
next
  case (do_onFfmpegEnd recId)
  then show ?thesis using f onFfmpegEnd_inv [OF i] by (intro exI [of _ used]) simp
next
  case (do_onFfmpegError recId)
  then show ?thesis using f frame_inv [OF i frame_onFfmpegError] by (intro exI [of _ used]) simp
qed


lemma execAll_inv:
  assumes "recordingInv used s" and "freshRoomIds used ops"
  shows "\<exists>used'. recordingInv used' (execAll ops s)"
  using assms
proof (induction ops arbitrary: used s)
  case Nil
  then show ?case by auto
next
  case (Cons x xs)
  obtain used' where "recordingInv used' (exec x s)" and "freshRoomIds used' xs"
    using exec_inv [OF Cons.prems] by auto
  then show ?case using Cons.IH by simp
qed


lemma initial_inv: "recordingInv [] initial"
  by (simp add: recordingInv_def initial_def activeIn_def)


lemma filter_le_one:
  assumes "distinct (map fst al)"
    and "\<And>k k' v v'. map_of al k = Some v \<Longrightarrow> map_of al k' = Some v' \<Longrightarrow> P v \<Longrightarrow> P v' \<Longrightarrow> k = k'"
  shows "length (filter P (map snd al)) \<le> 1"
  using assms
proof (induction al)
  case Nil
  then show ?case by simp
next
  case (Cons a al)
  obtain k v where a: "a = (k, v)" by (cases a)
  have d: "distinct (map fst al)" and nk: "k \<notin> fst ` set al"
    using Cons.prems(1) a by auto
  have look: "map_of (a # al) k' = Some v'" if "(k', v') \<in> set al" for k' v'
  proof -
    have "k' \<noteq> k" using that nk by force
    moreover have "map_of al k' = Some v'" using that d by simp
    ultimately show ?thesis using a by simp
  qed
  have rest: "length (filter P (map snd al)) \<le> 1"
  proof (rule Cons.IH [OF d])
    fix k1 k2 v1 v2
    assume "map_of al k1 = Some v1" "map_of al k2 = Some v2" "P v1" "P v2"
    then show "k1 = k2"
      using Cons.prems(2) [of k1 v1 k2 v2] look [of k1 v1] look [of k2 v2]
      by (auto dest: map_of_SomeD)
  qed
  show ?case
  proof (cases "P v")
    case False
    then show ?thesis using rest a by simp
  next
    case True
    have "\<not> P v'" if "(k', v') \<in> set al" for k' v'
    proof
      assume "P v'"
      have "map_of (a # al) k = Some v" using a by simp
      then have "k = k'"
        using Cons.prems(2) [of k v k' v'] look [OF that] True \<open>P v'\<close> by simp
      then show False using that nk by force
    qed
    then have "filter P (map snd al) = []"
      by (auto simp: filter_empty_conv)
    then show ?thesis using a True by simp
  qed
qed

lemma active_blocks_start:
  assumes i: "recordingInv used s" and a: "activeIn s recId r"
  shows "startRecording env (rec_roomId r) s
           = (Inl (Error (''Room '' @ rec_roomId r @
                 (if getRoom (rec_roomId r) s = None then '' not found''
                  else '' is already being recorded''))), s)"
proof (cases "map_of (rooms s) (rec_roomId r)")
  case None
  then show ?thesis by (simp add: startRecording_def getRoom_def)
next
  case (Some room)
  have "flagOf (rec_roomId r) s \<noteq> Some False"
    by (rule inv_flag [OF i a])
  then have "isRecording (recording room)"
    using Some by (simp add: flagOf_def)
  then show ?thesis
    using Some by (simp add: startRecording_def getRoom_def isRoomRecording_def)
qed

text \<open>
  When no two calls overlap (every operation of the run is finished before the next
  begins) and room ids are not reused, a room with a stored session of status
  \<^verbatim>\<open>recording\<close> refuses \<^verbatim>\<open>startRecording\<close> and the state stays as it is, and no room
  has two such sessions.
\<close>

theorem serialized_startRecording_mutex:
  assumes "freshRoomIds [] ops"
  shows "(\<forall>recId r. getRecording recId (execAll ops initial) = Some r \<and> rec_status r = st_recording \<longrightarrow>
            startRecording env (rec_roomId r) (execAll ops initial)
              = (Inl (Error (''Room '' @ rec_roomId r @
                   (if getRoom (rec_roomId r) (execAll ops initial) = None then '' not found''
                    else '' is already being recorded''))), execAll ops initial)) \<and>
         (\<forall>roomId. length (filter (\<lambda>r. rec_roomId r = roomId \<and> rec_status r = st_recording)
                              (getAllRecordings (execAll ops initial))) \<le> 1)"
proof -
  let ?s = "execAll ops initial"
  obtain used where i: "recordingInv used ?s"
    using execAll_inv [OF initial_inv assms] by auto
  have one: "length (filter (\<lambda>r. rec_roomId r = roomId \<and> rec_status r = st_recording)
                       (getAllRecordings ?s)) \<le> 1" for roomId
    unfolding getAllRecordings_def
  proof (rule filter_le_one [OF inv_distinct [OF i]])
    fix k k' v v'
    assume "map_of (recordings ?s) k = Some v" "map_of (recordings ?s) k' = Some v'"
      "rec_roomId v = roomId \<and> rec_status v = st_recording"
      "rec_roomId v' = roomId \<and> rec_status v' = st_recording"
    then have "activeIn ?s k v" "activeIn ?s k' v'" "rec_roomId v = rec_roomId v'"
      by (simp_all add: activeIn_def)
    then show "k = k'" by (rule inv_sole [OF i])
  qed
  have block: "startRecording env (rec_roomId r) ?s
              = (Inl (Error (''Room '' @ rec_roomId r @
                   (if getRoom (rec_roomId r) ?s = None then '' not found''
                    else '' is already being recorded''))), ?s)"
    if "getRecording recId ?s = Some r \<and> rec_status r = st_recording" for recId r
  proof -
    from that have "activeIn ?s recId r" by (simp add: activeIn_def getRecording_def)
    then show ?thesis by (rule active_blocks_start [OF i])
  qed
  show ?thesis
  proof (intro conjI allI impI)
    fix recId r
    assume "getRecording recId ?s = Some r \<and> rec_status r = st_recording"
    then show "startRecording env (rec_roomId r) ?s
              = (Inl (Error (''Room '' @ rec_roomId r @
                   (if getRoom (rec_roomId r) ?s = None then '' not found''
                    else '' is already being recorded''))), ?s)"
      by (rule block)
  next
    fix roomId
    show "length (filter (\<lambda>r. rec_roomId r = roomId \<and> rec_status r = st_recording)
                    (getAllRecordings ?s)) \<le> 1"
      by (rule one)
  qed
qed


text \<open>A run of the gateway to which the statement applies: after the recording has
  been started, a second request on the same room is refused.\<close>

lemma serialized_startRecording_mutex_example:
  "freshRoomIds [] recordingOps \<and>
   getRecording ''rec-1'' (execAll recordingOps initial) \<noteq> None \<and>
   startRecording secondEnv ''room-1'' (execAll recordingOps initial)
     = (Inl (Error ''Room room-1 is already being recorded''), execAll recordingOps initial)"
proof -
  have f: "freshRoomIds [] recordingOps"
    by (simp add: recordingOps_def)
  have g: "getRecording ''rec-1'' (execAll recordingOps initial)
             = Some \<lparr>rec_id = ''rec-1'', rec_roomId = ''room-1'',
                     rec_filePath = ''recordings/recording-lobby-t1.mp4'',
                     rec_startTime = 100, rec_endTime = None, rec_status = st_recording,
                     rec_participants = [''peer-a'']\<rparr>"
    and r: "getRoom ''room-1'' (execAll recordingOps initial) \<noteq> None"
    by code_simp+
  let ?r = "\<lparr>rec_id = ''rec-1'', rec_roomId = ''room-1'',
             rec_filePath = ''recordings/recording-lobby-t1.mp4'',
             rec_startTime = 100, rec_endTime = None, rec_status = st_recording,
             rec_participants = [''peer-a'']\<rparr>"
  have "getRecording ''rec-1'' (execAll recordingOps initial) = Some ?r \<and> rec_status ?r = st_recording"
    using g by simp
  then have "startRecording secondEnv (rec_roomId ?r) (execAll recordingOps initial)
              = (Inl (Error (''Room '' @ rec_roomId ?r @
                   (if getRoom (rec_roomId ?r) (execAll recordingOps initial) = None
                    then '' not found'' else '' is already being recorded''))),
                 execAll recordingOps initial)"
    by (rule conjunct1 [OF serialized_startRecording_mutex [OF f, of secondEnv], rule_format])
  then show ?thesis
    using f g r by simp
qed

section \<open>Two overlapping requests for a recording\<close>

text \<open>The stretches of \<^verbatim>\<open>startRecording\<close>, run one after the other with nothing in
  between, are the whole call.\<close>

lemma startRecording_steps:
  "startRecording env roomId s =
     (case startRecording_check env roomId s of
        Inl e \<Rightarrow> (Inl e, s)
      | Inr info \<Rightarrow>
          (case startRecording_run env info s of
             Inl e \<Rightarrow> (Inl e, s)
           | Inr s1 \<Rightarrow> startRecording_settle env roomId info s1))"
  by (simp add: startRecording_def startRecording_check_def startRecording_run_def
      startRecording_settle_def startFFmpegRecording_def Let_def effects_def
      split: option.splits sum.splits ffmpeg_outcome.splits)

text \<open>
  C3. The check \<^verbatim>\<open>isRoomRecording\<close> and the assignment of the room's flag are
  separated by the two \<^verbatim>\<open>await\<close>s, so the code does not keep the mutual exclusion the
  claim states. Ann's request passes the check and launches FFmpeg; Bob's request,
  handled while Ann's waits for FFmpeg's \<^verbatim>\<open>start\<close>, passes the check as well and
  launches a second FFmpeg process; both calls then store their session. The room has
  two sessions with status \<^verbatim>\<open>recording\<close>. When the first is stopped the room's flag
  is cleared, and while the second session still has status \<^verbatim>\<open>recording\<close> a third
  \<^verbatim>\<open>startRecording\<close> for the room succeeds.
\<close>

theorem overlapping_startRecording_two_sessions:
  "startRecording_check startEnv ''room-1'' twoJoined = Inr firstInfo \<and>
   startRecording_run startEnv firstInfo twoJoined = Inr firstRunning \<and>
   startRecording_check secondEnv ''room-1'' firstRunning = Inr secondInfo \<and>
   startRecording_run secondEnv secondInfo firstRunning = Inr bothRunning \<and>
   fst (startRecording_settle startEnv ''room-1'' firstInfo bothRunning) = Inr firstInfo \<and>
   fst (startRecording_settle secondEnv ''room-1'' secondInfo
          (snd (startRecording_settle startEnv ''room-1'' firstInfo bothRunning))) = Inr secondInfo \<and>
   filter (\<lambda>r. rec_roomId r = ''room-1'' \<and> rec_status r = st_recording)
       (getAllRecordings overlapped) = [firstInfo, secondInfo] \<and>
   filter (\<lambda>e. e = ffmpeg_run ''rec-1'' \<or> e = ffmpeg_run ''rec-2'') (trace overlapped)
     = [ffmpeg_run ''rec-1'', ffmpeg_run ''rec-2''] \<and>
   getRecording ''rec-2'' firstStopped = Some secondInfo \<and>
   isRoomRecording ''room-1'' firstStopped = False \<and>
   fst (startRecording thirdEnv ''room-1'' firstStopped)
     = Inr \<lparr>rec_id = ''rec-3'', rec_roomId = ''room-1'',
            rec_filePath = ''recordings/recording-lobby-t3.mp4'',
            rec_startTime = 300, rec_endTime = None, rec_status = st_recording,
            rec_participants = [''peer-a'', ''peer-b'']\<rparr>"
  by code_simp

end
